theory Spec2Isabelle
  imports Main
begin

section \<open>Python strings and integers\<close>

text \<open>
  A Python \<open>str\<close> is a \<^typ>\<open>string\<close>, a Python \<open>int\<close> an \<^typ>\<open>int\<close>.
  \<open>py_str\<close> is \<open>str(i)\<close> on an int, \<open>py_zfill\<close> is \<open>str.zfill\<close> (the zeros go
  after a leading sign), \<open>py_join\<close> is \<open>sep.join(xs)\<close>, \<open>py_rfind\<close> is \<open>str.rfind\<close> of
  one character (\<open>-1\<close> when it is absent) and \<open>py_range\<close> is \<open>range(start, stop, 1)\<close>.
\<close>

definition digit_char :: "nat \<Rightarrow> char" where
  "digit_char d = ''0123456789'' ! (d mod 10)"

fun digits :: "nat \<Rightarrow> string" where
  "digits n = (if n < 10 then [digit_char n] else digits (n div 10) @ [digit_char (n mod 10)])"

declare digits.simps [simp del]

definition py_str :: "int \<Rightarrow> string" where
  "py_str i = (if i < 0 then CHR ''-'' # digits (nat (- i)) else digits (nat i))"

definition py_zfill :: "string \<Rightarrow> int \<Rightarrow> string" where
  "py_zfill s width =
     (if width \<le> int (length s) then s
      else
        let fill = nat (width - int (length s)) in
        (case s of
           [] \<Rightarrow> replicate fill CHR ''0''
         | c # rest \<Rightarrow>
             if c = CHR ''+'' \<or> c = CHR ''-'' then c # replicate fill CHR ''0'' @ rest
             else replicate fill CHR ''0'' @ s))"

fun py_join :: "string \<Rightarrow> string list \<Rightarrow> string" where
  "py_join sep [] = []"
| "py_join sep [x] = x"
| "py_join sep (x # y # ys) = x @ sep @ py_join sep (y # ys)"

definition py_rfind :: "char \<Rightarrow> string \<Rightarrow> int" where
  "py_rfind c s =
     (if c \<in> set s then int (length s) - 1 - int (length (takeWhile (\<lambda>x. x \<noteq> c) (rev s)))
      else - 1)"

definition py_range :: "int \<Rightarrow> int \<Rightarrow> int list" where
  "py_range start stop = [start..stop - 1]"

text \<open>Truth values of optional configuration entries: \<open>None\<close>, \<open>''\<close> and \<open>0\<close> are false.\<close>

fun truthy_str :: "string option \<Rightarrow> bool" where
  "truthy_str None = False"
| "truthy_str (Some s) = (s \<noteq> [])"

fun truthy_int :: "int option \<Rightarrow> bool" where
  "truthy_int None = False"
| "truthy_int (Some i) = (i \<noteq> 0)"

text \<open>\<open>f"{v}"\<close> of an optional int: \<open>None\<close> prints as the word None.\<close>

fun py_format_int :: "int option \<Rightarrow> string" where
  "py_format_int None = ''None''"
| "py_format_int (Some i) = py_str i"

section \<open>Exceptions\<close>

text \<open>
  \<open>ReError\<close> is \<open>re.error\<close>; \<open>IndexError\<close> is what the template compiler of \<open>re\<close> raises
  on an unknown group name.
\<close>

datatype exn = RequestException | OSError | ValueError | ReError | IndexError

section \<open>\<open>pathlib\<close>: pure POSIX paths\<close>

text \<open>
  A \<open>Path\<close> object is its root (\<open>''\<close>, \<open>/\<close> or \<open>//\<close>) and its parts. \<open>Path s\<close> parses
  one string: it splits at \<open>/\<close> and drops the empty and the \<open>.\<close> components.
  \<open>path_suffix\<close> is the property \<open>suffix\<close>: the text from the last dot of the name, when
  that dot is neither the first nor the last character. \<open>with_suffix\<close> replaces that
  suffix when there is one and appends otherwise; it raises \<open>ValueError\<close> on a suffix that
  is not of the form \<open>.xyz\<close> and on a path with an empty name.
\<close>

record path =
  root :: string
  parts :: "string list"

fun split_sep :: "string \<Rightarrow> string list" where
  "split_sep [] = [[]]"
| "split_sep (c # cs) =
     (if c = CHR ''/'' then [] # split_sep cs
      else (case split_sep cs of [] \<Rightarrow> [[c]] | x # xs \<Rightarrow> (c # x) # xs))"

definition splitroot :: "string \<Rightarrow> string \<times> string" where
  "splitroot p =
     (case p of
        [] \<Rightarrow> ('''', p)
      | c # _ \<Rightarrow>
          if c = CHR ''/'' then
            let stripped_part = dropWhile (\<lambda>x. x = CHR ''/'') p in
            if length p - length stripped_part = 2 then (''//'', stripped_part)
            else (''/'', stripped_part)
          else ('''', p))"

definition Path :: "string \<Rightarrow> path" where
  "Path s =
     (case splitroot s of
        (rt, rel) \<Rightarrow> \<lparr>root = rt, parts = filter (\<lambda>x. x \<noteq> [] \<and> x \<noteq> ''.'') (split_sep rel)\<rparr>)"

definition path_name :: "path \<Rightarrow> string" where
  "path_name p = (if parts p = [] then [] else last (parts p))"

definition path_suffix :: "path \<Rightarrow> string" where
  "path_suffix p =
     (let name = path_name p; i = py_rfind CHR ''.'' name in
      if 0 < i \<and> i < int (length name) - 1 then drop (nat i) name else [])"

definition with_suffix :: "path \<Rightarrow> string \<Rightarrow> exn + path" where
  "with_suffix p suffix =
     (if CHR ''/'' \<in> set suffix then Inl ValueError
      else if (suffix \<noteq> [] \<and> take 1 suffix \<noteq> ''.'') \<or> suffix = ''.'' then Inl ValueError
      else
        let name = path_name p in
        if name = [] then Inl ValueError
        else
          let old_suffix = path_suffix p;
              name' = (if old_suffix = [] then name @ suffix
                       else take (length name - length old_suffix) name @ suffix)
          in Inr (p\<lparr>parts := butlast (parts p) @ [name']\<rparr>))"

definition path_str :: "path \<Rightarrow> string" where
  "path_str p =
     (if root p = [] \<and> parts p = [] then ''.'' else root p @ py_join ''/'' (parts p))"

text \<open>\<open>Path(a, b)\<close>: a second argument with a root replaces the first.\<close>

definition path_join :: "path \<Rightarrow> path \<Rightarrow> path" where
  "path_join a b = (if root b \<noteq> [] then b else \<lparr>root = root a, parts = parts a @ parts b\<rparr>)"

section \<open>\<open>re\<close>: a compiled pattern and \<open>Pattern.sub\<close>\<close>

text \<open>
  The regular expression engine is a parameter. A compiled pattern is given by
  \<^item> \<open>search s pos must_advance\<close>: the span \<open>(b, e)\<close> of the leftmost match in \<open>s\<close> found
    scanning from \<open>pos\<close>, where a match at \<open>pos\<close> itself must be non-empty when
    \<open>must_advance\<close> is set, or \<open>None\<close>;
  \<^item> \<open>template repl\<close>: what the template compiler of \<open>re\<close> makes of a replacement that
    holds a backslash: the exception it raises, or the filter that gives, for a subject
    and a match span, the text the template stands for there.
  A pattern that \<open>re.compile\<close> refuses is outside the model.

  \<open>re_sub\<close> is \<open>Pattern.sub(repl, string)\<close> with the default \<open>count = 0\<close>. It first
  settles the replacement (\<open>repl_filter\<close>): one without a backslash is inserted as it is,
  any other is compiled, and an exception of the template compiler is raised before
  anything is searched. Then it searches again from the end of each match until the
  engine finds nothing, and after an empty match the next one must advance. A span
  that breaks the engine's contract (\<open>span_ok\<close>) ends the loop as a failed search does.
\<close>

record pattern =
  search :: "string \<Rightarrow> nat \<Rightarrow> bool \<Rightarrow> (nat \<times> nat) option"
  template :: "string \<Rightarrow> exn + (string \<Rightarrow> nat \<times> nat \<Rightarrow> string)"

definition span_ok :: "string \<Rightarrow> nat \<Rightarrow> bool \<Rightarrow> nat \<times> nat \<Rightarrow> bool" where
  "span_ok s pos must_advance span =
     (case span of (b, e) \<Rightarrow>
        pos \<le> b \<and> b \<le> e \<and> e \<le> length s \<and> (if must_advance then e \<noteq> pos else True))"

definition is_literal :: "string \<Rightarrow> bool" where
  "is_literal repl = (CHR 0x5C \<notin> set repl)"

definition repl_filter ::
  "pattern \<Rightarrow> string \<Rightarrow> exn + (string \<Rightarrow> nat \<times> nat \<Rightarrow> string)" where
  "repl_filter rx repl = (if is_literal repl then Inr (\<lambda>s span. repl) else template rx repl)"

function re_sub_loop ::
  "pattern \<Rightarrow> (nat \<times> nat \<Rightarrow> string) \<Rightarrow> string \<Rightarrow> nat \<Rightarrow> bool \<Rightarrow> string" where
  "re_sub_loop rx f s pos must_advance =
     (case search rx s pos must_advance of
        None \<Rightarrow> drop pos s
      | Some (b, e) \<Rightarrow>
          if span_ok s pos must_advance (b, e)
          then take (b - pos) (drop pos s) @ f (b, e) @ re_sub_loop rx f s e (e = b)
          else drop pos s)"
  by pat_completeness auto
termination
  by (relation "measure (\<lambda>(rx, f, s, pos, adv). 2 * (length s - pos) + (if adv then 0 else 1))")
     (auto simp: span_ok_def split: if_splits)

declare re_sub_loop.simps [simp del]

definition re_sub :: "pattern \<Rightarrow> string \<Rightarrow> string \<Rightarrow> exn + string" where
  "re_sub rx repl s =
     (case repl_filter rx repl of
        Inl e \<Rightarrow> Inl e
      | Inr filt \<Rightarrow> Inr (re_sub_loop rx (filt s) s 0 False))"




subsection \<open>The template compiler for a pattern without groups\<close>

text \<open>
  \<open>parse_template\<close> of \<open>re\<close> (Python 3.11) for a pattern that has no group, on strings
  of code points below 256. It reads the replacement from the left. A backslash pairs
  with the character after it, and a backslash at the very end is an error. Backslash
  \<open>g\<close> must be followed by a name between \<open><\<close> and \<open>>\<close>: an identifier names a group
  that does not exist (\<open>IndexError\<close>), and any other name must read as the integer 0
  (as \<open>int\<close> reads it: blanks around, a sign, zeros with single underscores between
  them), which stands for the whole match. Backslash \<open>0\<close> with up to two more octal
  digits, and a backslash with three octal digits up to \<open>377\<close>, are the character of
  that code; any other backslash and digit refers to a group that does not exist.
  Backslash \<open>a\<close>, \<open>b\<close>, \<open>f\<close>, \<open>n\<close>, \<open>r\<close>, \<open>t\<close>, \<open>v\<close> and a doubled backslash are one
  character; a backslash before any other ASCII letter is a bad escape; before anything
  else it stays, with that character. While a group name is read the tokenizer is
  already one token ahead, so a lone backslash right after the closing \<open>>\<close> is
  reported first.
\<close>

datatype piece = Lit string | Whole_match

definition code_in :: "char \<Rightarrow> nat \<Rightarrow> nat \<Rightarrow> bool" where
  "code_in c lo hi = (lo \<le> of_char c \<and> of_char c \<le> hi)"

definition is_digit :: "char \<Rightarrow> bool" where
  "is_digit c = code_in c 48 57"

definition is_octal :: "char \<Rightarrow> bool" where
  "is_octal c = code_in c 48 55"

definition is_ascii_letter :: "char \<Rightarrow> bool" where
  "is_ascii_letter c = (code_in c 65 90 \<or> code_in c 97 122)"

definition is_space :: "char \<Rightarrow> bool" where
  "is_space c = (code_in c 9 13 \<or> c = CHR '' '' \<or> c = CHR 0x85 \<or> c = CHR 0xA0)"

definition is_id_start :: "char \<Rightarrow> bool" where
  "is_id_start c =
     (is_ascii_letter c \<or> c = CHR ''_'' \<or> c = CHR 0xAA \<or> c = CHR 0xB5 \<or> c = CHR 0xBA
      \<or> code_in c 192 214 \<or> code_in c 216 246 \<or> code_in c 248 255)"

definition is_id_continue :: "char \<Rightarrow> bool" where
  "is_id_continue c = (is_id_start c \<or> is_digit c \<or> c = CHR 0xB7)"

definition isidentifier :: "string \<Rightarrow> bool" where
  "isidentifier s =
     (case s of [] \<Rightarrow> False | c # cs \<Rightarrow> is_id_start c \<and> list_all is_id_continue cs)"

definition octal_value :: "string \<Rightarrow> nat" where
  "octal_value s = foldl (\<lambda>a c. 8 * a + (of_char c - 48)) 0 s"

fun zeros :: "string \<Rightarrow> bool" where
  "zeros [] = False"
| "zeros [c] = (c = CHR ''0'')"
| "zeros (c # d # cs) = (c = CHR ''0'' \<and> (if d = CHR ''_'' then zeros cs else zeros (d # cs)))"

definition py_strip :: "string \<Rightarrow> string" where
  "py_strip s = rev (dropWhile is_space (rev (dropWhile is_space s)))"

definition int_is_zero :: "string \<Rightarrow> bool" where
  "int_is_zero name =
     (case py_strip name of
        [] \<Rightarrow> False
      | c # cs \<Rightarrow> if c = CHR ''+'' \<or> c = CHR ''-'' then zeros cs else zeros (c # cs))"

fun group_name :: "string \<Rightarrow> string option" where
  "group_name [] = None"
| "group_name [c] = (if c = CHR ''>'' then Some [] else None)"
| "group_name (c # d # cs) =
     (if c = CHR 0x5C then map_option (\<lambda>name. c # d # name) (group_name cs)
      else if c = CHR ''>'' then Some []
      else map_option (\<lambda>name. c # name) (group_name (d # cs)))"

definition octal_digits :: "string \<Rightarrow> string" where
  "octal_digits s = takeWhile is_octal (take 2 s)"

definition escape_char :: "char \<Rightarrow> char option" where
  "escape_char c =
     (if c = CHR ''a'' then Some (CHR 0x07) else if c = CHR ''b'' then Some (CHR 0x08)
      else if c = CHR ''f'' then Some (CHR 0x0C) else if c = CHR ''n'' then Some (CHR 0x0A)
      else if c = CHR ''r'' then Some (CHR 0x0D) else if c = CHR ''t'' then Some (CHR 0x09)
      else if c = CHR ''v'' then Some (CHR 0x0B) else if c = CHR 0x5C then Some (CHR 0x5C)
      else None)"

definition then_piece :: "piece \<Rightarrow> exn + piece list \<Rightarrow> exn + piece list" where
  "then_piece p r = (case r of Inl e \<Rightarrow> Inl e | Inr ps \<Rightarrow> Inr (p # ps))"

fun parse_template :: "string \<Rightarrow> exn + piece list" where
  "parse_template [] = Inr []"
| "parse_template [c] = (if c = CHR 0x5C then Inl ReError else Inr [Lit [c]])"
| "parse_template (c # d # cs) =
     (if c \<noteq> CHR 0x5C then then_piece (Lit [c]) (parse_template (d # cs))
      else if d = CHR ''g'' then
        (if take 1 cs \<noteq> ''<'' then Inl ReError
         else
           (case group_name (drop 1 cs) of
              None \<Rightarrow> Inl ReError
            | Some name \<Rightarrow>
                if drop (length name + 2) cs = [CHR 0x5C] then Inl ReError
                else if name = [] then Inl ReError
                else if isidentifier name then Inl IndexError
                else if int_is_zero name
                then then_piece Whole_match (parse_template (drop (length name + 2) cs))
                else Inl ReError))
      else if d = CHR ''0'' then
        then_piece (Lit [char_of (octal_value (octal_digits cs))])
          (parse_template (drop (length (octal_digits cs)) cs))
      else if is_digit d then
        (if is_octal d \<and> length (takeWhile is_octal (take 2 cs)) = 2
         then
           (if 255 < octal_value (d # take 2 cs) then Inl ReError
            else then_piece (Lit [char_of (octal_value (d # take 2 cs))])
                   (parse_template (drop 2 cs)))
         else Inl ReError)
      else
        (case escape_char d of
           Some ch \<Rightarrow> then_piece (Lit [ch]) (parse_template cs)
         | None \<Rightarrow>
             if is_ascii_letter d then Inl ReError
             else then_piece (Lit [c, d]) (parse_template cs)))"

definition expand_template :: "piece list \<Rightarrow> string \<Rightarrow> nat \<times> nat \<Rightarrow> string" where
  "expand_template ps s span =
     (case span of (b, e) \<Rightarrow>
        concat (map (\<lambda>p. case p of Lit t \<Rightarrow> t | Whole_match \<Rightarrow> take (e - b) (drop b s)) ps))"

definition groupless_template :: "string \<Rightarrow> exn + (string \<Rightarrow> nat \<times> nat \<Rightarrow> string)" where
  "groupless_template repl =
     (case parse_template repl of Inl e \<Rightarrow> Inl e | Inr ps \<Rightarrow> Inr (expand_template ps))"

subsection \<open>A pattern of ordinary characters\<close>

text \<open>
  The engine on a pattern of ordinary characters only (no metacharacter, no group): it
  matches exactly the occurrences of that text, and its templates are those of a
  pattern without groups.
\<close>

definition occurs_at :: "string \<Rightarrow> string \<Rightarrow> nat \<Rightarrow> bool" where
  "occurs_at lit s b = (take (length lit) (drop b s) = lit)"

definition literal_search :: "string \<Rightarrow> string \<Rightarrow> nat \<Rightarrow> bool \<Rightarrow> (nat \<times> nat) option" where
  "literal_search lit s pos must_advance =
     (case filter (\<lambda>b. occurs_at lit s b \<and> \<not> (must_advance \<and> b = pos \<and> lit = []))
             [pos..<Suc (length s)] of
        [] \<Rightarrow> None
      | b # _ \<Rightarrow> Some (b, b + length lit))"

definition literal_pattern :: "string \<Rightarrow> pattern" where
  "literal_pattern lit = \<lparr>search = literal_search lit, template = groupless_template\<rparr>"

section \<open>Effects: the network, the file system, the clock and the log\<close>

text \<open>
  What a run does to the outside is its trace, a list of events: \<open>Get url\<close> is one call
  of \<open>requests.get\<close>, \<open>Write path data\<close> one file written by \<open>write_file\<close>,
  \<open>OpenLog path\<close> the log file opened by \<open>logging.FileHandler\<close> and \<open>Info msg\<close> one
  record of \<open>logger.info\<close>. The outside is a \<open>world\<close>: what it answers may depend on
  everything that happened before, so each of its fields takes the trace so far.
  \<open>net\<close> answers a GET with a response or raises; \<open>disk\<close> and \<open>log_file\<close> say whether
  writing a file or opening the log file raises; \<open>clock\<close> is
  \<open>datetime.now().isoformat()\<close>; \<open>cwd\<close> is \<open>Path.cwd()\<close>.

  An action takes the trace so far and returns the events it adds and either the
  exception it raised or its value. \<open>bind\<close> is Python's sequencing (an exception skips
  what follows) and \<open>for_each\<close> is a \<open>for\<close> loop whose body has no \<open>try\<close>.
\<close>

record response =
  status_code :: int
  content :: string

datatype event = Get string | Write string string | OpenLog string | Info string

record world =
  net :: "event list \<Rightarrow> string \<Rightarrow> exn + response"
  disk :: "event list \<Rightarrow> string \<Rightarrow> string \<Rightarrow> exn option"
  log_file :: "event list \<Rightarrow> string \<Rightarrow> exn option"
  clock :: "event list \<Rightarrow> string"
  cwd :: path

type_synonym 'a io = "event list \<Rightarrow> event list \<times> (exn + 'a)"

definition ret :: "'a \<Rightarrow> 'a io" where
  "ret x h = ([], Inr x)"

definition lift :: "exn + 'a \<Rightarrow> 'a io" where
  "lift r h = ([], r)"

definition bind :: "'a io \<Rightarrow> ('a \<Rightarrow> 'b io) \<Rightarrow> 'b io" where
  "bind m f h =
     (case m h of
        (es, Inl e) \<Rightarrow> (es, Inl e)
      | (es, Inr x) \<Rightarrow> (case f x (h @ es) of (es', r) \<Rightarrow> (es @ es', r)))"

fun for_each :: "('a \<Rightarrow> unit io) \<Rightarrow> 'a list \<Rightarrow> unit io" where
  "for_each body [] = ret ()"
| "for_each body (x # xs) = bind (body x) (\<lambda>_. for_each body xs)"

definition requests_get :: "world \<Rightarrow> string \<Rightarrow> response io" where
  "requests_get w url h = ([Get url], net w h url)"

definition write_file :: "world \<Rightarrow> string \<Rightarrow> string \<Rightarrow> unit io" where
  "write_file w filepath data h =
     (case disk w h filepath data of
        Some e \<Rightarrow> ([], Inl e)
      | None \<Rightarrow> ([Write filepath data], Inr ()))"

definition file_handler :: "world \<Rightarrow> string \<Rightarrow> unit io" where
  "file_handler w filepath h =
     (case log_file w h filepath of
        Some e \<Rightarrow> ([], Inl e)
      | None \<Rightarrow> ([OpenLog filepath], Inr ()))"

definition logger_info :: "string \<Rightarrow> unit io" where
  "logger_info msg h = ([Info msg], Inr ())"

definition datetime_now :: "world \<Rightarrow> string io" where
  "datetime_now w h = ([], Inr (clock w h))"

text \<open>The URLs a trace fetched, in order, and whether a trace holds the end record.\<close>

fun gets :: "event list \<Rightarrow> string list" where
  "gets [] = []"
| "gets (Get url # es) = url # gets es"
| "gets (_ # es) = gets es"

definition is_end_record :: "event \<Rightarrow> bool" where
  "is_end_record ev = (case ev of Info msg \<Rightarrow> take 9 msg = ''End run: '' | _ \<Rightarrow> False)"

definition reaches_end :: "event list \<Rightarrow> bool" where
  "reaches_end es = list_ex is_end_record es"

section \<open>The configuration\<close>

text \<open>
  The entries of the loaded YAML document the scripts read. A \<open>paths\<close> entry of either
  schema has \<open>prefix\<close>, \<open>part\<close>, \<open>default_path\<close> and \<open>regex\<close> (here already compiled,
  as line 216 of \<open>loc_maps.py\<close> and line 188 of \<open>loc_sanborn_maps.py\<close> leave it);
  \<open>loc_maps_config.yml\<close> adds the nested \<open>index\<close> with \<open>start\<close>, \<open>stop\<close> and
  \<open>zfill_width\<close>, \<open>loc_sanborn_params.yml\<close> adds \<open>pad_num\<close>, \<open>index_start\<close> and
  \<open>index_stop\<close>. The naming entries are \<open>filename_segments\<close> (\<open>name\<close> a list) and a
  municipality (\<open>name\<close> one string, with \<open>state\<close> and \<open>extension\<close>). The \<open>paths\<close> list of
  the selected entry is passed to \<open>main\<close> on its own.
\<close>

record path_group =
  prefix :: string
  part :: "string option"
  default_path :: string
  regex :: pattern

record maps_index =
  start :: int
  stop :: int
  zfill_width :: int

record maps_path = path_group +
  index :: maps_index

record sanborn_path = path_group +
  pad_num :: bool
  index_start :: int
  index_stop :: int

record 'n naming =
  name :: 'n
  year :: "int option"
  vol :: "string option"

type_synonym filename_segments = "string list naming"

record municipality = "string naming" +
  state :: string
  extension :: string

section \<open>\<open>loc_maps.py\<close>\<close>

text \<open>
  \<open>create_filename\<close>, lines 60 to 95. \<open>maps_log_segments\<close> is the list \<open>segments\<close> at
  line 82, \<open>maps_image_segments\<close> the list at line 95.
\<close>

definition year_segment :: "int option \<Rightarrow> string list" where
  "year_segment y = (case y of Some i \<Rightarrow> if truthy_int y then [py_str i] else [] | None \<Rightarrow> [])"

definition vol_segment :: "string option \<Rightarrow> string list" where
  "vol_segment v = (case v of Some s \<Rightarrow> if truthy_str v then [''vol_'' @ s] else [] | None \<Rightarrow> [])"

definition part_segment :: "string option \<Rightarrow> string list" where
  "part_segment p = (case p of Some s \<Rightarrow> if truthy_str p then [s] else [] | None \<Rightarrow> [])"

definition pad4 :: "string \<Rightarrow> string" where
  "pad4 num = (if length num < 4 then py_zfill num 4 else num)"

definition num_segment :: "string option \<Rightarrow> string list" where
  "num_segment n = (case n of Some num \<Rightarrow> if truthy_str n then [pad4 num] else [] | None \<Rightarrow> [])"

definition maps_log_segments :: "filename_segments \<Rightarrow> string list" where
  "maps_log_segments name_segments =
     name name_segments @ year_segment (year name_segments) @ vol_segment (vol name_segments)"

definition maps_image_segments ::
  "filename_segments \<Rightarrow> string option \<Rightarrow> string option \<Rightarrow> string list" where
  "maps_image_segments name_segments part' num =
     maps_log_segments name_segments @ vol_segment (vol name_segments)
       @ part_segment part' @ num_segment num"

definition maps_create_filename ::
  "filename_segments \<Rightarrow> string option \<Rightarrow> string option \<Rightarrow> string \<Rightarrow> exn + path" where
  "maps_create_filename name_segments part' num extension' =
     (if extension' = ''.log''
      then with_suffix (Path (py_join ''-'' (maps_log_segments name_segments))) extension'
      else with_suffix (Path (py_join ''-'' (maps_image_segments name_segments part' num)))
             extension')"

definition create_filepath :: "world \<Rightarrow> string \<Rightarrow> path \<Rightarrow> path" where
  "create_filepath w output_path filename =
     path_join (path_join (cwd w) (Path output_path)) filename"

definition maps_configure_logger :: "world \<Rightarrow> string \<Rightarrow> filename_segments \<Rightarrow> unit io" where
  "maps_configure_logger w output_path name_segments =
     bind (lift (maps_create_filename name_segments None None ''.log'')) (\<lambda>filename.
       file_handler w (path_str (create_filepath w output_path filename)))"

text \<open>
  The body of the inner loop of \<open>main\<close>, lines 223 to 244. The resource URL is an
  exception when \<open>regex.sub\<close> raises, and then nothing is fetched.
\<close>

definition maps_num :: "int \<Rightarrow> int \<Rightarrow> string" where
  "maps_num width i = (if 0 < width then py_zfill (py_str i) width else py_str i)"

definition maps_repl :: "maps_path \<Rightarrow> int \<Rightarrow> string" where
  "maps_repl p i = prefix p @ maps_num (zfill_width (index p)) i"

definition maps_resource_url :: "string \<Rightarrow> maps_path \<Rightarrow> int \<Rightarrow> exn + string" where
  "maps_resource_url host p i =
     (case re_sub (regex p) (maps_repl p i) (default_path p) of
        Inl e \<Rightarrow> Inl e
      | Inr resolved \<Rightarrow> Inr (host @ resolved))"

definition maps_item ::
  "world \<Rightarrow> string \<Rightarrow> filename_segments \<Rightarrow> string \<Rightarrow> maps_path \<Rightarrow> int \<Rightarrow> unit io" where
  "maps_item w host name_segments output_path p i =
     bind (lift (maps_resource_url host p i)) (\<lambda>resource_url.
     bind (requests_get w resource_url) (\<lambda>response.
     bind (lift (maps_create_filename name_segments (part p)
                   (Some (maps_num (zfill_width (index p)) i)) ''.jpg'')) (\<lambda>filename.
     bind (write_file w (path_str (create_filepath w output_path filename))
             (content response)) (\<lambda>_.
     logger_info (''Renamed file to ''
        @ path_name (create_filepath w output_path filename))))))"

definition maps_group ::
  "world \<Rightarrow> string \<Rightarrow> filename_segments \<Rightarrow> string \<Rightarrow> maps_path \<Rightarrow> unit io" where
  "maps_group w host name_segments output_path p =
     for_each (maps_item w host name_segments output_path p)
       (py_range (start (index p)) (stop (index p)))"

definition maps_main ::
  "world \<Rightarrow> string \<Rightarrow> filename_segments \<Rightarrow> maps_path list \<Rightarrow> string \<Rightarrow> unit io" where
  "maps_main w host name_segments paths output_path =
     bind (datetime_now w) (\<lambda>start_date_time.
     bind (maps_configure_logger w output_path name_segments) (\<lambda>_.
     bind (logger_info (''Start run: '' @ start_date_time)) (\<lambda>_.
     bind (for_each (maps_group w host name_segments output_path) paths) (\<lambda>_.
     bind (datetime_now w) (\<lambda>end_date_time.
     logger_info (''End run: '' @ end_date_time))))))"

section \<open>\<open>loc_sanborn_maps.py\<close>\<close>

definition sanborn_stem :: "municipality \<Rightarrow> string" where
  "sanborn_stem m =
     ''Sanborn-LOC'' @ ''-'' @ name m @ ''-'' @ state m @ ''-'' @ py_format_int (year m)
       @ (case vol m of Some v \<Rightarrow> if truthy_str (vol m) then ''-vol_'' @ v else [] | None \<Rightarrow> [])"

definition sanborn_configure_logger :: "world \<Rightarrow> municipality \<Rightarrow> string \<Rightarrow> unit io" where
  "sanborn_configure_logger w m output_path =
     file_handler w (output_path @ ''/'' @ sanborn_stem m @ ''.log'')"

definition sanborn_create_filename :: "municipality \<Rightarrow> string \<Rightarrow> string option \<Rightarrow> string" where
  "sanborn_create_filename m image_id part' =
     sanborn_stem m
       @ (case part' of Some s \<Rightarrow> if truthy_str part' then ''-'' @ s else [] | None \<Rightarrow> [])
       @ ''-'' @ pad4 image_id @ ''.'' @ extension m"

definition sanborn_num :: "bool \<Rightarrow> int \<Rightarrow> string" where
  "sanborn_num pad i = (if pad then py_zfill (py_str i) 4 else py_str i)"

definition sanborn_repl :: "sanborn_path \<Rightarrow> int \<Rightarrow> string" where
  "sanborn_repl p i = prefix p @ sanborn_num (pad_num p) i"

definition sanborn_resource_url :: "string \<Rightarrow> sanborn_path \<Rightarrow> int \<Rightarrow> exn + string" where
  "sanborn_resource_url host p i =
     (case re_sub (regex p) (sanborn_repl p i) (default_path p) of
        Inl e \<Rightarrow> Inl e
      | Inr resolved \<Rightarrow> Inr (host @ resolved))"

definition sanborn_item ::
  "world \<Rightarrow> string \<Rightarrow> municipality \<Rightarrow> string \<Rightarrow> sanborn_path \<Rightarrow> int \<Rightarrow> unit io" where
  "sanborn_item w host m output_path p i =
     bind (lift (sanborn_resource_url host p i)) (\<lambda>resource_url.
     bind (requests_get w resource_url) (\<lambda>response.
     bind (write_file w
             (output_path @ ''/''
                @ sanborn_create_filename m (sanborn_num (pad_num p) i) (part p))
             (content response)) (\<lambda>_.
     logger_info (''Renamed file to ''
        @ sanborn_create_filename m (sanborn_num (pad_num p) i) (part p)))))"

definition sanborn_group ::
  "world \<Rightarrow> string \<Rightarrow> municipality \<Rightarrow> string \<Rightarrow> sanborn_path \<Rightarrow> unit io" where
  "sanborn_group w host m output_path p =
     for_each (sanborn_item w host m output_path p) (py_range (index_start p) (index_stop p))"

definition sanborn_main ::
  "world \<Rightarrow> string \<Rightarrow> municipality \<Rightarrow> sanborn_path list \<Rightarrow> string \<Rightarrow> unit io" where
  "sanborn_main w host m paths output_path =
     bind (datetime_now w) (\<lambda>start_date_time.
     bind (sanborn_configure_logger w m output_path) (\<lambda>_.
     bind (logger_info (''Start run: '' @ start_date_time)) (\<lambda>_.
     bind (for_each (sanborn_group w host m output_path) paths) (\<lambda>_.
     bind (datetime_now w) (\<lambda>end_date_time.
     logger_info (''End run: '' @ end_date_time))))))"

section \<open>What the claims speak of\<close>

text \<open>
  The (group, index) pairs of a job in the order of the two nested loops, and what they
  resolve to: a URL, or the exception \<open>regex.sub\<close> raises.
\<close>

definition maps_pairs :: "maps_path list \<Rightarrow> (maps_path \<times> int) list" where
  "maps_pairs paths =
     concat (map (\<lambda>p. map (Pair p) (py_range (start (index p)) (stop (index p)))) paths)"

definition maps_plan :: "string \<Rightarrow> maps_path list \<Rightarrow> (exn + string) list" where
  "maps_plan host paths = map (\<lambda>(p, i). maps_resource_url host p i) (maps_pairs paths)"

definition sanborn_pairs :: "sanborn_path list \<Rightarrow> (sanborn_path \<times> int) list" where
  "sanborn_pairs paths =
     concat (map (\<lambda>p. map (Pair p) (py_range (index_start p) (index_stop p))) paths)"

definition sanborn_plan :: "string \<Rightarrow> sanborn_path list \<Rightarrow> (exn + string) list" where
  "sanborn_plan host paths = map (\<lambda>(p, i). sanborn_resource_url host p i) (sanborn_pairs paths)"

text \<open>
  The number a decimal numeral stands for (leading zeros count for nothing), and the
  text of an image filename of \<open>loc_maps.py\<close> before its numeral: every segment that
  precedes the numeral, each followed by the \<open>-\<close> of the join.
\<close>

definition digit_value :: "char \<Rightarrow> nat" where
  "digit_value c = of_char c - 48"

definition numeral_value :: "string \<Rightarrow> nat" where
  "numeral_value s = foldl (\<lambda>a c. 10 * a + digit_value c) 0 s"

definition maps_stem :: "filename_segments \<Rightarrow> string option \<Rightarrow> string" where
  "maps_stem name_segments part' =
     concat (map (\<lambda>segment. segment @ ''-'')
       (maps_log_segments name_segments @ vol_segment (vol name_segments)
          @ part_segment part'))"

text \<open>
  Three properties of an action, each for every trace it may start from.
  \<open>stops_at_failure\<close>: a GET the network answered with an exception is the last event,
  and that exception is the result. \<open>quiet\<close>: no end record is written.
  \<open>follows_plan pl\<close>: the URLs fetched are an initial part of \<open>pl\<close>, and all of \<open>pl\<close>
  when the action returns.
\<close>

definition stops_at_failure :: "world \<Rightarrow> 'a io \<Rightarrow> bool" where
  "stops_at_failure w m =
     (\<forall>h before url after r e.
        m h = (before @ Get url # after, r) \<and> net w (h @ before) url = Inl e
          \<longrightarrow> after = [] \<and> r = Inl e)"

definition quiet :: "'a io \<Rightarrow> bool" where
  "quiet m = (\<forall>h. \<not> reaches_end (fst (m h)))"

definition returns :: "exn + 'a \<Rightarrow> bool" where
  "returns r = (case r of Inl _ \<Rightarrow> False | Inr _ \<Rightarrow> True)"

definition follows_plan :: "(exn + string) list \<Rightarrow> 'a io \<Rightarrow> bool" where
  "follows_plan pl m =
     (\<forall>h. (\<exists>rest. pl = map Inr (gets (fst (m h))) @ rest)
          \<and> (if returns (snd (m h)) then map Inr (gets (fst (m h))) = pl else True))"

text \<open>
  The schema mapping between the two configuration files: a \<open>paths\<close> entry of
  \<open>loc_sanborn_params.yml\<close> read as one of \<open>loc_maps_config.yml\<close> with a given
  \<open>zfill_width\<close>.
\<close>

definition as_maps_path :: "sanborn_path \<Rightarrow> int \<Rightarrow> maps_path" where
  "as_maps_path p width =
     \<lparr>prefix = prefix p, part = part p, default_path = default_path p, regex = regex p,
      index = \<lparr>start = index_start p, stop = index_stop p, zfill_width = width\<rparr>\<rparr>"

section \<open>Example configurations and worlds\<close>

text \<open>
  The job of the specification's end-to-end scenario (with three indices); groups whose
  pattern matches twice, matches nothing, and matches nothing while the prefix is the
  bad escape made of a backslash and \<open>q\<close>; a naming entry with a volume, one with a dot
  in a name segment, two municipalities; and two worlds: one that answers every GET with
  a 404 page and one whose network fails at the second image.
\<close>

definition example_host :: string where
  "example_host = ''https://example.org''"

definition example_group :: maps_path where
  "example_group =
     \<lparr>prefix = ''p'', part = None, default_path = ''/img/_PLACEHOLDER.jpg'',
      regex = literal_pattern ''_PLACEHOLDER'',
      index = \<lparr>start = 1, stop = 4, zfill_width = 4\<rparr>\<rparr>"

definition example_sanborn_group :: sanborn_path where
  "example_sanborn_group =
     \<lparr>prefix = ''p'', part = None, default_path = ''/img/_PLACEHOLDER.jpg'',
      regex = literal_pattern ''_PLACEHOLDER'',
      pad_num = True, index_start = 1, index_stop = 4\<rparr>"



definition unmatched_group :: maps_path where
  "unmatched_group = example_group\<lparr>regex := literal_pattern ''_MISSING''\<rparr>"

definition unmatched_sanborn_group :: sanborn_path where
  "unmatched_sanborn_group = example_sanborn_group\<lparr>regex := literal_pattern ''_MISSING''\<rparr>"

definition refused_group :: maps_path where
  "refused_group = unmatched_group\<lparr>prefix := [CHR 0x5C, CHR ''q'']\<rparr>"

definition refused_sanborn_group :: sanborn_path where
  "refused_sanborn_group = unmatched_sanborn_group\<lparr>prefix := [CHR 0x5C, CHR ''q'']\<rparr>"

definition example_segments :: filename_segments where
  "example_segments = \<lparr>name = [''LOC'', ''Springfield'', ''IL''], year = Some 1925, vol = None\<rparr>"

definition volume_segments :: filename_segments where
  "volume_segments = \<lparr>name = [''LOC'', ''Springfield'', ''IL''], year = Some 1925, vol = Some ''2''\<rparr>"

definition dotted_segments :: filename_segments where
  "dotted_segments = \<lparr>name = [''LOC'', ''St.Louis'', ''MO''], year = Some 1925, vol = None\<rparr>"

definition volume_municipality :: municipality where
  "volume_municipality =
     \<lparr>name = ''Springfield'', year = Some 1925, vol = Some ''2'', state = ''IL'',
      extension = ''jpg''\<rparr>"

definition example_municipality :: municipality where
  "example_municipality =
     \<lparr>name = ''Springfield'', year = Some 1925, vol = None, state = ''IL'', extension = ''jpg''\<rparr>"

definition page_404 :: response where
  "page_404 = \<lparr>status_code = 404, content = ''Not Found''\<rparr>"

definition calm_world :: world where
  "calm_world =
     \<lparr>net = (\<lambda>h url. Inr page_404), disk = (\<lambda>h filepath data. None),
      log_file = (\<lambda>h filepath. None), clock = (\<lambda>h. ''T''), cwd = Path ''/home/user''\<rparr>"

definition gap_world :: world where
  "gap_world =
     calm_world\<lparr>net := (\<lambda>h url. if url = ''https://example.org/img/p0002.jpg''
                                  then Inl RequestException else Inr page_404)\<rparr>"

section \<open>Facts about the Python strings\<close>

lemma digit_char_cases:
  "digit_char d \<in> set ''0123456789''"
proof -
  have "d mod 10 < length ''0123456789''" by simp
  then show ?thesis unfolding digit_char_def by (rule nth_mem)
qed

lemma digits_not_Nil [simp]: "digits n \<noteq> []"
  by (subst digits.simps) simp

lemma set_digits: "set (digits n) \<subseteq> set ''0123456789''"
proof (induction n rule: digits.induct)
  case (1 n)
  show ?case
  proof (cases "n < 10")
    case True
    then show ?thesis using digit_char_cases[of n] by (subst digits.simps) simp
  next
    case False
    then show ?thesis using 1 digit_char_cases[of "n mod 10"] by (subst digits.simps) simp
  qed
qed

lemma hd_digits_no_sign: "digits n = c # cs \<Longrightarrow> c \<noteq> CHR ''+'' \<and> c \<noteq> CHR ''-''"
  using set_digits[of n] by auto

lemma py_str_nonneg: "0 \<le> i \<Longrightarrow> py_str i = digits (nat i)"
  by (simp add: py_str_def)

lemma py_str_not_Nil [simp]: "py_str i \<noteq> []"
  by (simp add: py_str_def)

lemma py_zfill_not_Nil [simp]: "s \<noteq> [] \<Longrightarrow> py_zfill s w \<noteq> []"
  by (auto simp: py_zfill_def Let_def split: list.splits)

lemma maps_num_not_Nil [simp]: "maps_num w i \<noteq> []"
  by (simp add: maps_num_def)

lemma py_zfill_short: "w \<le> int (length s) \<Longrightarrow> py_zfill s w = s"
  by (simp add: py_zfill_def)

lemma length_py_zfill: "int (length (py_zfill s w)) = max (int (length s)) w"
  by (auto simp: py_zfill_def Let_def split: list.splits)

lemma py_zfill_signed:
  "c = CHR ''+'' \<or> c = CHR ''-'' \<Longrightarrow>
   py_zfill (c # rest) w = c # replicate (nat (w - 1 - int (length rest))) CHR ''0'' @ rest"
  by (auto simp: py_zfill_def Let_def algebra_simps)

lemma py_zfill_plain:
  "take 1 s \<noteq> ''+'' \<Longrightarrow> take 1 s \<noteq> ''-'' \<Longrightarrow>
   py_zfill s w = replicate (nat (w - int (length s))) CHR ''0'' @ s"
  by (cases s) (auto simp: py_zfill_def Let_def)

lemma take1_replicate_append:
  "take 1 (replicate n CHR ''0'' @ s) = (if n = 0 then take 1 s else ''0'')"
  by (cases n) simp_all

lemma py_zfill_twice: "py_zfill (py_zfill s a) b = py_zfill s (max a b)"
proof (cases "take 1 s = ''+'' \<or> take 1 s = ''-''")
  case True
  then obtain c rest where s: "s = c # rest" and c: "c = CHR ''+'' \<or> c = CHR ''-''"
    by (cases s) auto
  have "nat (b - 1 - int (length (replicate (nat (a - 1 - int (length rest))) CHR ''0'' @ rest)))
          + nat (a - 1 - int (length rest)) = nat (max a b - 1 - int (length rest))"
    by simp arith
  then have "replicate (nat (b - 1 - int (length (replicate (nat (a - 1 - int (length rest))) CHR ''0'' @ rest)))) CHR ''0''
          @ replicate (nat (a - 1 - int (length rest))) CHR ''0''
        = replicate (nat (max a b - 1 - int (length rest))) CHR ''0''"
    by (simp only: replicate_add[symmetric])
  with c show ?thesis
    unfolding s by (simp only: py_zfill_signed append_assoc[symmetric])
next
  case False
  then have p1: "take 1 s \<noteq> ''+''" "take 1 s \<noteq> ''-''" by simp_all
  let ?n = "nat (a - int (length s))"
  from p1 have p2: "take 1 (replicate ?n CHR ''0'' @ s) \<noteq> ''+''"
    "take 1 (replicate ?n CHR ''0'' @ s) \<noteq> ''-''"
    unfolding take1_replicate_append by simp_all
  have "nat (b - int (length (replicate ?n CHR ''0'' @ s))) + ?n = nat (max a b - int (length s))"
    by simp arith
  then have "replicate (nat (b - int (length (replicate ?n CHR ''0'' @ s)))) CHR ''0''
          @ replicate ?n CHR ''0'' = replicate (nat (max a b - int (length s))) CHR ''0''"
    by (simp only: replicate_add[symmetric])
  then show ?thesis
    by (simp only: py_zfill_plain[OF p1] py_zfill_plain[OF p2] append_assoc[symmetric])
qed

lemma pad4_zfill: "pad4 s = py_zfill s 4"
  by (simp add: pad4_def py_zfill_def)

lemma pad4_maps_num: "pad4 (maps_num w i) = py_zfill (py_str i) (max 4 w)"
proof (cases "0 < w")
  case True
  then show ?thesis by (simp add: pad4_zfill maps_num_def py_zfill_twice max.commute)
next
  case False
  then show ?thesis by (simp add: pad4_zfill maps_num_def max_def)
qed

lemma pad4_not_Nil [simp]: "s \<noteq> [] \<Longrightarrow> pad4 s \<noteq> []"
  by (simp add: pad4_zfill)

lemma take1_digits: "take 1 (digits n) \<noteq> ''+'' \<and> take 1 (digits n) \<noteq> ''-''"
  using hd_digits_no_sign[of n] by (cases "digits n") auto

lemma py_zfill_py_str_nonneg:
  "0 \<le> i \<Longrightarrow> py_zfill (py_str i) w = replicate (nat (w - int (length (py_str i)))) CHR ''0'' @ py_str i"
  using take1_digits[of "nat i"] by (simp add: py_str_nonneg py_zfill_plain)

lemma digits_plain:
  "c \<in> set (digits n) \<Longrightarrow> c \<noteq> CHR ''/'' \<and> c \<noteq> CHR ''.''"
  using set_digits[of n] by auto

lemma py_str_plain: "c \<in> set (py_str i) \<Longrightarrow> c \<noteq> CHR ''/'' \<and> c \<noteq> CHR ''.''"
  using digits_plain[of c] by (auto simp: py_str_def split: if_splits)

lemma py_zfill_chars: "c \<in> set (py_zfill s w) \<Longrightarrow> c = CHR ''0'' \<or> c \<in> set s"
  by (auto simp: py_zfill_def Let_def split: list.splits if_splits)

lemma maps_num_plain: "c \<in> set (maps_num w i) \<Longrightarrow> c \<noteq> CHR ''/'' \<and> c \<noteq> CHR ''.''"
  using py_zfill_chars[of c "py_str i" w] py_str_plain[of c i]
  by (auto simp: maps_num_def split: if_splits)

lemma pad4_maps_num_plain:
  "c \<in> set (pad4 (maps_num w i)) \<Longrightarrow> c \<noteq> CHR ''/'' \<and> c \<noteq> CHR ''.''"
  using py_zfill_chars[of c "maps_num w i" 4] maps_num_plain[of c w i]
  by (auto simp: pad4_zfill)

lemma py_join_snoc: "\<exists>zs. py_join sep (xs @ [x]) = zs @ x"
proof (induction sep xs rule: py_join.induct)
  case (1 sep)
  then show ?case by simp
next
  case (2 sep y)
  then show ?case by simp
next
  case (3 sep y z zs)
  then obtain us where "py_join sep ((z # zs) @ [x]) = us @ x" by blast
  then show ?case by (auto intro: exI[of _ "y @ sep @ us"])
qed

lemma py_join_snoc_concat:
  "py_join sep (xs @ [x]) = concat (map (\<lambda>s. s @ sep) xs) @ x"
  by (induction sep xs rule: py_join.induct) auto

lemma set_py_range: "set (py_range a b) = {i. a \<le> i \<and> i < b}"
  by (auto simp: py_range_def)

lemma sorted_wrt_py_range: "sorted_wrt (<) (py_range a b)"
  by (simp add: py_range_def)

lemma py_str_7: "py_str 7 = ''7''"
  by code_simp

lemma digit_value_digit_char: "d < 10 \<Longrightarrow> digit_value (digit_char d) = d"
proof -
  assume "d < 10"
  then have "d \<in> {0, 1, 2, 3, 4, 5, 6, 7, 8, 9}" by auto
  then show ?thesis
    by (auto simp: digit_value_def digit_char_def)
qed

lemma numeral_value_snoc: "numeral_value (s @ [c]) = 10 * numeral_value s + digit_value c"
  by (simp add: numeral_value_def)

lemma numeral_value_digits: "numeral_value (digits n) = n"
proof (induction n rule: digits.induct)
  case (1 n)
  show ?case
  proof (cases "n < 10")
    case True
    then show ?thesis
      by (subst digits.simps) (simp add: numeral_value_def digit_value_digit_char)
  next
    case False
    with 1 show ?thesis
      by (subst digits.simps) (simp add: numeral_value_snoc digit_value_digit_char)
  qed
qed

lemma numeral_value_zeros: "numeral_value (replicate k CHR ''0'' @ s) = numeral_value s"
proof -
  have "foldl (\<lambda>a c. 10 * a + digit_value c) 0 (replicate k CHR ''0'') = 0"
    by (induction k) (simp_all add: digit_value_def)
  then show ?thesis by (simp add: numeral_value_def)
qed

lemma numeral_value_zfill:
  "0 \<le> i \<Longrightarrow> numeral_value (py_zfill (py_str i) w) = nat i"
proof -
  assume i: "0 \<le> i"
  then have "numeral_value (py_zfill (py_str i) w) = numeral_value (py_str i)"
    by (simp only: py_zfill_py_str_nonneg numeral_value_zeros)
  with i show ?thesis by (simp add: py_str_nonneg numeral_value_digits)
qed

lemma numeral_value_sanborn_num: "0 \<le> i \<Longrightarrow> numeral_value (pad4 (sanborn_num pad i)) = nat i"
  by (simp add: pad4_zfill sanborn_num_def py_zfill_twice numeral_value_zfill)

lemma numeral_value_maps_num: "0 \<le> i \<Longrightarrow> numeral_value (pad4 (maps_num w i)) = nat i"
  by (simp add: pad4_maps_num numeral_value_zfill)

section \<open>Facts about \<open>Pattern.sub\<close>\<close>




lemma digits_no_backslash: "CHR 0x5C \<notin> set (digits n)"
  using set_digits[of n] by auto

lemma py_str_no_backslash: "CHR 0x5C \<notin> set (py_str i)"
  using digits_no_backslash by (simp add: py_str_def)

lemma py_zfill_no_backslash: "CHR 0x5C \<notin> set s \<Longrightarrow> CHR 0x5C \<notin> set (py_zfill s w)"
  using py_zfill_chars[of "CHR 0x5C" s w] by auto

lemma is_literal_maps_repl: "is_literal (prefix p) \<Longrightarrow> is_literal (maps_repl p i)"
  by (simp add: is_literal_def maps_repl_def maps_num_def py_zfill_no_backslash
        py_str_no_backslash)

lemma is_literal_sanborn_repl: "is_literal (prefix p) \<Longrightarrow> is_literal (sanborn_repl p i)"
  by (simp add: is_literal_def sanborn_repl_def sanborn_num_def py_zfill_no_backslash
        py_str_no_backslash)

lemma maps_url_literal:
  "is_literal (prefix p) \<Longrightarrow> returns (maps_resource_url host p i)"
  by (simp add: maps_resource_url_def re_sub_def repl_filter_def is_literal_maps_repl
        returns_def)

lemma sanborn_url_literal:
  "is_literal (prefix p) \<Longrightarrow> returns (sanborn_resource_url host p i)"
  by (simp add: sanborn_resource_url_def re_sub_def repl_filter_def is_literal_sanborn_repl
        returns_def)

section \<open>Facts about paths\<close>

text \<open>
  A string that ends in a non-empty text without \<open>/\<close>, other than a single dot, parses to
  a path whose name ends in that text; so the name of an image file, which ends in its
  numeral, is never empty and \<open>with_suffix\<close> does not raise on it.
\<close>

lemma split_sep_not_Nil [simp]: "split_sep s \<noteq> []"
  by (induction s) (auto split: list.splits)

lemma split_sep_no_sep: "CHR ''/'' \<notin> set s \<Longrightarrow> split_sep s = [s]"
  by (induction s) auto

lemma split_sep_append:
  "CHR ''/'' \<notin> set ys \<Longrightarrow>
   split_sep (xs @ ys) = butlast (split_sep xs) @ [last (split_sep xs) @ ys]"
proof (induction xs)
  case Nil
  then show ?case by (simp add: split_sep_no_sep)
next
  case (Cons x xs)
  then show ?case
    by (cases "split_sep xs") (auto split: list.splits)
qed

lemma last_split_sep_append:
  "CHR ''/'' \<notin> set ys \<Longrightarrow> last (split_sep (xs @ ys)) = last (split_sep xs) @ ys"
  by (simp add: split_sep_append)

lemma dropWhile_append_keeps:
  "ys \<noteq> [] \<Longrightarrow> hd ys \<noteq> CHR ''/'' \<Longrightarrow>
   \<exists>zs. dropWhile (\<lambda>x. x = CHR ''/'') (xs @ ys) = zs @ ys"
proof (induction xs)
  case Nil
  then show ?case by (cases ys) auto
next
  case (Cons x xs)
  then show ?case by (cases "x = CHR ''/''") (auto intro: exI[of _ "x # xs"])
qed

lemma last_filter_keeps:
  assumes "xs \<noteq> []" "P (last xs)"
  shows "filter P xs \<noteq> [] \<and> last (filter P xs) = last xs"
proof -
  from assms(1) have "xs = butlast xs @ [last xs]" by simp
  then have "filter P xs = filter P (butlast xs) @ filter P [last xs]"
    by (metis filter_append)
  with assms(2) show ?thesis by simp
qed

lemma splitroot_append_keeps:
  assumes "ys \<noteq> []" "CHR ''/'' \<notin> set ys"
  shows "\<exists>zs. snd (splitroot (xs @ ys)) = zs @ ys"
proof -
  from assms have hd: "hd ys \<noteq> CHR ''/''" by (cases ys) auto
  from dropWhile_append_keeps[OF assms(1) hd, of xs]
  obtain zs where zs: "dropWhile (\<lambda>x. x = CHR ''/'') (xs @ ys) = zs @ ys" by blast
  show ?thesis
  proof (cases "xs @ ys")
    case Nil
    with assms show ?thesis by simp
  next
    case (Cons c cs)
    show ?thesis
    proof (cases "c = CHR ''/''")
      case True
      with Cons zs show ?thesis
        by (auto simp: splitroot_def Let_def simp del: dropWhile_append)
    next
      case False
      with Cons show ?thesis by (auto simp: splitroot_def intro: exI[of _ xs])
    qed
  qed
qed

lemma path_name_Path_append:
  assumes "ys \<noteq> []" "CHR ''/'' \<notin> set ys" "ys \<noteq> ''.''"
  shows "\<exists>zs. path_name (Path (xs @ ys)) = zs @ ys"
proof -
  from splitroot_append_keeps[OF assms(1,2), of xs]
  obtain zs where zs: "snd (splitroot (xs @ ys)) = zs @ ys" by blast
  let ?ok = "\<lambda>x. x \<noteq> [] \<and> x \<noteq> ''.''"
  have l: "last (split_sep (zs @ ys)) = last (split_sep zs) @ ys"
    using assms(2) by (rule last_split_sep_append)
  have "last (split_sep zs) @ ys \<noteq> ''.''"
    using assms(1,3) by (simp add: append_eq_Cons_conv)
  with l assms(1) have ok: "?ok (last (split_sep (zs @ ys)))" by simp
  from last_filter_keeps[of "split_sep (zs @ ys)" ?ok, OF split_sep_not_Nil ok]
  have "path_name (Path (xs @ ys)) = last (split_sep zs) @ ys"
    using zs l by (cases "splitroot (xs @ ys)") (simp add: path_name_def Path_def)
  then show ?thesis by blast
qed

lemma with_suffix_jpg: "path_name p \<noteq> [] \<Longrightarrow> \<exists>q. with_suffix p ''.jpg'' = Inr q"
  by (simp add: with_suffix_def Let_def)

lemma image_filename_is_built:
  "\<exists>filename. maps_create_filename ns part' (Some (maps_num w i)) ''.jpg'' = Inr filename"
proof -
  let ?num = "pad4 (maps_num w i)"
  have n1: "?num \<noteq> []" by simp
  have n2: "CHR ''/'' \<notin> set ?num"
    using pad4_maps_num_plain[of "CHR ''/''" w i] by blast
  have n3: "?num \<noteq> ''.''"
    using pad4_maps_num_plain[of "CHR ''.''" w i] by (metis list.set_intros(1))
  obtain zs where
    "py_join ''-'' (maps_image_segments ns part' (Some (maps_num w i))) = zs @ ?num"
    using py_join_snoc[of "''-''" "maps_log_segments ns @ vol_segment (vol ns) @ part_segment part'" ?num]
    by (auto simp: maps_image_segments_def num_segment_def)
  moreover obtain us where "path_name (Path (zs @ ?num)) = us @ ?num"
    using path_name_Path_append[OF n1 n2 n3] by blast
  ultimately have "path_name (Path (py_join ''-'' (maps_image_segments ns part' (Some (maps_num w i))))) \<noteq> []"
    using n1 by simp
  then show ?thesis
    unfolding maps_create_filename_def by (simp add: with_suffix_jpg)
qed

lemma snd_splitroot: "snd (splitroot s) = dropWhile (\<lambda>x. x = CHR ''/'') s"
  by (cases s) (auto simp: splitroot_def Let_def)

lemma set_last_split_sep: "set (last (split_sep s)) \<subseteq> set s"
proof (induction s)
  case Nil
  then show ?case by simp
next
  case (Cons c cs)
  then show ?case
    by (cases "split_sep cs") (auto split: if_splits)
qed

lemma path_name_with_suffix:
  "with_suffix p ext = Inr q \<Longrightarrow> path_suffix p = [] \<Longrightarrow> path_name q = path_name p @ ext"
  by (auto simp: with_suffix_def Let_def path_name_def split: if_splits)

lemma path_suffix_no_dot: "CHR ''.'' \<notin> set (path_name p) \<Longrightarrow> path_suffix p = []"
  by (simp add: path_suffix_def Let_def py_rfind_def)

lemma path_name_Path_snoc:
  assumes "num \<noteq> []" "CHR ''/'' \<notin> set num" "num \<noteq> ''.''"
  shows "path_name (Path (s @ num))
           = last (split_sep (dropWhile (\<lambda>x. x = CHR ''/'') s)) @ num"
proof -
  let ?ok = "\<lambda>x. x \<noteq> [] \<and> x \<noteq> ''.''"
  let ?z = "dropWhile (\<lambda>x. x = CHR ''/'') s"
  from assms(1,2) obtain c cs where num: "num = c # cs" and c: "c \<noteq> CHR ''/''"
    by (cases num) auto
  have rel: "snd (splitroot (s @ num)) = ?z @ num"
    unfolding snd_splitroot num using c by (simp add: dropWhile_append3)
  have l: "last (split_sep (?z @ num)) = last (split_sep ?z) @ num"
    using assms(2) by (rule last_split_sep_append)
  have "last (split_sep ?z) @ num \<noteq> ''.''"
    using assms(1,3) by (simp add: append_eq_Cons_conv)
  with l assms(1) have ok: "?ok (last (split_sep (?z @ num)))" by simp
  from last_filter_keeps[of "split_sep (?z @ num)" ?ok, OF split_sep_not_Nil ok]
  show ?thesis
    using rel l by (cases "splitroot (s @ num)") (simp add: path_name_def Path_def)
qed

lemma image_name:
  assumes "num \<noteq> []" "CHR ''/'' \<notin> set num" "CHR ''.'' \<notin> set num" "CHR ''.'' \<notin> set s"
    and "with_suffix (Path (s @ num)) ext = Inr q"
  shows "path_name q = last (split_sep (dropWhile (\<lambda>x. x = CHR ''/'') s)) @ num @ ext"
proof -
  from assms(3) have nd: "num \<noteq> ''.''" by auto
  have n: "path_name (Path (s @ num))
             = last (split_sep (dropWhile (\<lambda>x. x = CHR ''/'') s)) @ num"
    using assms(1,2) nd by (rule path_name_Path_snoc)
  have "set (last (split_sep (dropWhile (\<lambda>x. x = CHR ''/'') s))) \<subseteq> set s"
    using set_last_split_sep[of "dropWhile (\<lambda>x. x = CHR ''/'') s"] set_dropWhileD by fastforce
  with assms(3,4) have "CHR ''.'' \<notin> set (path_name (Path (s @ num)))"
    unfolding n by auto
  then have "path_suffix (Path (s @ num)) = []" by (rule path_suffix_no_dot)
  with assms(5) n show ?thesis by (simp add: path_name_with_suffix)
qed

lemma pad4_maps_num_facts:
  "pad4 (maps_num w i) \<noteq> []" "CHR ''/'' \<notin> set (pad4 (maps_num w i))"
  "CHR ''.'' \<notin> set (pad4 (maps_num w i))"
  using pad4_maps_num_plain[of "CHR ''/''" w i] pad4_maps_num_plain[of "CHR ''.''" w i]
  by auto

lemma maps_joined:
  "py_join ''-'' (maps_image_segments ns part' (Some (maps_num w i)))
     = maps_stem ns part' @ pad4 (maps_num w i)"
proof -
  have "maps_image_segments ns part' (Some (maps_num w i))
          = (maps_log_segments ns @ vol_segment (vol ns) @ part_segment part') @ [pad4 (maps_num w i)]"
    by (simp add: maps_image_segments_def num_segment_def)
  then show ?thesis
    unfolding maps_stem_def by (simp only: py_join_snoc_concat)
qed

section \<open>Facts about actions\<close>

lemma returns_simps [simp]: "returns (Inr x)" "\<not> returns (Inl e)"
  by (simp_all add: returns_def)

lemma bind_Inl: "m h = (es, Inl e) \<Longrightarrow> bind m f h = (es, Inl e)"
  by (simp add: bind_def)

lemma bind_Inr: "m h = (es, Inr x) \<Longrightarrow> bind m f h = (es @ fst (f x (h @ es)), snd (f x (h @ es)))"
  by (simp add: bind_def split: prod.splits)

lemma bind_cases:
  assumes "bind m f h = (es, r)"
  obtains e where "m h = (es, Inl e)" "r = Inl e"
  | es1 x es2 where "m h = (es1, Inr x)" "f x (h @ es1) = (es2, r)" "es = es1 @ es2"
  using assms by (auto simp: bind_def split: prod.splits sum.splits)

lemma gets_append [simp]: "gets (xs @ ys) = gets xs @ gets ys"
  by (induction xs rule: gets.induct) simp_all

lemma reaches_end_append [simp]: "reaches_end (xs @ ys) = (reaches_end xs \<or> reaches_end ys)"
  by (simp add: reaches_end_def list_ex_iff) blast

lemma reaches_end_Nil [simp]: "\<not> reaches_end []"
  by (simp add: reaches_end_def)

subsection \<open>A failed GET ends the action\<close>

lemma stops_no_get:
  assumes "\<And>h. gets (fst (m h)) = []"
  shows "stops_at_failure w m"
proof -
  have "gets (before @ Get url # after) \<noteq> []" for before url after
    by (induction before rule: gets.induct) auto
  then show ?thesis
    unfolding stops_at_failure_def using assms by (metis fst_conv)
qed

lemma stops_ret: "stops_at_failure w (ret x)"
  by (rule stops_no_get) (simp add: ret_def)

lemma stops_lift: "stops_at_failure w (lift r)"
  by (rule stops_no_get) (simp add: lift_def)

lemma stops_write_file: "stops_at_failure w (write_file w' p d)"
  by (rule stops_no_get) (simp add: write_file_def split: option.splits)

lemma stops_file_handler: "stops_at_failure w (file_handler w' p)"
  by (rule stops_no_get) (simp add: file_handler_def split: option.splits)

lemma stops_logger_info: "stops_at_failure w (logger_info msg)"
  by (rule stops_no_get) (simp add: logger_info_def)

lemma stops_datetime_now: "stops_at_failure w (datetime_now w')"
  by (rule stops_no_get) (simp add: datetime_now_def)

lemma stops_requests_get: "stops_at_failure w (requests_get w url)"
  by (auto simp: stops_at_failure_def requests_get_def Cons_eq_append_conv)

lemma stops_bind:
  assumes m: "stops_at_failure w m" and f: "\<And>x. stops_at_failure w (f x)"
  shows "stops_at_failure w (bind m f)"
  unfolding stops_at_failure_def
proof (intro allI impI, elim conjE)
  fix h before url after r e
  assume run: "bind m f h = (before @ Get url # after, r)"
    and fail: "net w (h @ before) url = Inl e"
  from run show "after = [] \<and> r = Inl e"
  proof (cases rule: bind_cases)
    case (1 e')
    with m fail show ?thesis unfolding stops_at_failure_def by blast
  next
    case (2 es1 x es2)
    from 2(3) consider
      (left) us where "es1 = before @ Get url # us" "after = us @ es2"
      | (right) us where "before = es1 @ us" "es2 = us @ Get url # after"
      by (auto simp: append_eq_append_conv2 append_eq_Cons_conv Cons_eq_append_conv)
    then show ?thesis
    proof cases
      case left
      with m 2(1) fail have "Inr x = (Inl e :: exn + 'a)"
        unfolding stops_at_failure_def by blast
      then show ?thesis by simp
    next
      case right
      with f[of x] 2(2) fail show ?thesis
        unfolding stops_at_failure_def by (metis append.assoc)
    qed
  qed
qed

lemma stops_for_each:
  assumes "\<And>x. stops_at_failure w (body x)"
  shows "stops_at_failure w (for_each body xs)"
  by (induction xs) (auto intro: stops_ret stops_bind assms)

lemma stops_maps_main: "stops_at_failure w (maps_main w host ns paths out)"
  unfolding maps_main_def maps_group_def maps_item_def maps_configure_logger_def
  by (intro stops_bind stops_for_each stops_datetime_now stops_lift stops_file_handler
        stops_logger_info stops_requests_get stops_write_file)

lemma stops_sanborn_main: "stops_at_failure w (sanborn_main w host m paths out)"
  unfolding sanborn_main_def sanborn_group_def sanborn_item_def sanborn_configure_logger_def
  by (intro stops_bind stops_for_each stops_datetime_now stops_lift stops_file_handler
        stops_logger_info stops_requests_get stops_write_file)

subsection \<open>Only the last statement of \<open>main\<close> writes the end record\<close>

lemma quiet_ret: "quiet (ret x)"
  by (simp add: quiet_def ret_def)

lemma quiet_lift: "quiet (lift r)"
  by (simp add: quiet_def lift_def)

lemma quiet_requests_get: "quiet (requests_get w url)"
  by (simp add: quiet_def requests_get_def reaches_end_def is_end_record_def)

lemma quiet_write_file: "quiet (write_file w p d)"
  by (simp add: quiet_def write_file_def reaches_end_def is_end_record_def split: option.splits)

lemma quiet_file_handler: "quiet (file_handler w p)"
  by (simp add: quiet_def file_handler_def reaches_end_def is_end_record_def split: option.splits)

lemma quiet_datetime_now: "quiet (datetime_now w)"
  by (simp add: quiet_def datetime_now_def)

lemma quiet_renamed: "quiet (logger_info (''Renamed file to '' @ s))"
  by (simp add: quiet_def logger_info_def reaches_end_def is_end_record_def)

lemma quiet_start: "quiet (logger_info (''Start run: '' @ s))"
  by (simp add: quiet_def logger_info_def reaches_end_def is_end_record_def)

lemma quiet_bind:
  assumes "quiet m" and "\<And>x. quiet (f x)"
  shows "quiet (bind m f)"
  unfolding quiet_def
proof
  fix h
  obtain es r where mh: "m h = (es, r)" by (cases "m h")
  from assms(1) mh have q1: "\<not> reaches_end es" unfolding quiet_def by (metis fst_conv)
  show "\<not> reaches_end (fst (bind m f h))"
  proof (cases r)
    case (Inl e)
    with mh q1 show ?thesis by (simp add: bind_Inl)
  next
    case (Inr x)
    with mh q1 assms(2)[of x] show ?thesis by (simp add: bind_Inr quiet_def)
  qed
qed

lemma quiet_for_each:
  assumes "\<And>x. quiet (body x)"
  shows "quiet (for_each body xs)"
  by (induction xs) (auto intro: quiet_ret quiet_bind assms)

lemma end_bind:
  assumes "quiet m" and "\<And>x. \<forall>h. reaches_end (fst (f x h)) \<longrightarrow> returns (snd (f x h))"
  shows "\<forall>h. reaches_end (fst (bind m f h)) \<longrightarrow> returns (snd (bind m f h))"
proof (intro allI impI)
  fix h
  assume re: "reaches_end (fst (bind m f h))"
  obtain es r where mh: "m h = (es, r)" by (cases "m h")
  from assms(1) mh have q1: "\<not> reaches_end es" unfolding quiet_def by (metis fst_conv)
  show "returns (snd (bind m f h))"
  proof (cases r)
    case (Inl e)
    with mh q1 re show ?thesis by (simp add: bind_Inl)
  next
    case (Inr x)
    with mh q1 re have "reaches_end (fst (f x (h @ es)))" by (simp add: bind_Inr)
    with assms(2) have "returns (snd (f x (h @ es)))" by blast
    with mh Inr show ?thesis by (simp add: bind_Inr)
  qed
qed

lemma logger_info_returns:
  "\<forall>h. reaches_end (fst (logger_info msg h)) \<longrightarrow> returns (snd (logger_info msg h))"
  by (simp add: logger_info_def)

lemma quiet_maps_item: "quiet (maps_item w host ns out p i)"
  unfolding maps_item_def
  by (intro quiet_bind quiet_requests_get quiet_lift quiet_write_file quiet_renamed)

lemma quiet_maps_loops: "quiet (for_each (maps_group w host ns out) paths)"
  unfolding maps_group_def by (intro quiet_for_each quiet_maps_item)

lemma quiet_sanborn_item: "quiet (sanborn_item w host m out p i)"
  unfolding sanborn_item_def
  by (intro quiet_bind quiet_lift quiet_requests_get quiet_write_file quiet_renamed)

lemma quiet_sanborn_loops: "quiet (for_each (sanborn_group w host m out) paths)"
  unfolding sanborn_group_def by (intro quiet_for_each quiet_sanborn_item)

lemma quiet_maps_configure_logger: "quiet (maps_configure_logger w out ns)"
  unfolding maps_configure_logger_def by (intro quiet_bind quiet_lift quiet_file_handler)

lemma quiet_sanborn_configure_logger: "quiet (sanborn_configure_logger w m out)"
  unfolding sanborn_configure_logger_def by (rule quiet_file_handler)

lemma maps_main_end:
  "reaches_end (fst (maps_main w host ns paths out h)) \<Longrightarrow> returns (snd (maps_main w host ns paths out h))"
proof -
  have "\<forall>h. reaches_end (fst (maps_main w host ns paths out h)) \<longrightarrow> returns (snd (maps_main w host ns paths out h))"
    unfolding maps_main_def
    by (intro end_bind quiet_datetime_now quiet_maps_configure_logger quiet_start
        quiet_maps_loops logger_info_returns)
  then show "reaches_end (fst (maps_main w host ns paths out h)) \<Longrightarrow> returns (snd (maps_main w host ns paths out h))"
    by blast
qed

lemma sanborn_main_end:
  "reaches_end (fst (sanborn_main w host m paths out h)) \<Longrightarrow> returns (snd (sanborn_main w host m paths out h))"
proof -
  have "\<forall>h. reaches_end (fst (sanborn_main w host m paths out h)) \<longrightarrow> returns (snd (sanborn_main w host m paths out h))"
    unfolding sanborn_main_def
    by (intro end_bind quiet_datetime_now quiet_sanborn_configure_logger quiet_start
        quiet_sanborn_loops logger_info_returns)
  then show "reaches_end (fst (sanborn_main w host m paths out h)) \<Longrightarrow> returns (snd (sanborn_main w host m paths out h))"
    by blast
qed

subsection \<open>An action whose parts return, returns\<close>

lemma returns_bind:
  assumes "\<And>h. returns (snd (m h))" and "\<And>x h. returns (snd (f x h))"
  shows "returns (snd (bind m f h))"
proof -
  obtain es r where mh: "m h = (es, r)" by (cases "m h")
  with assms(1)[of h] obtain x where "r = Inr x" by (cases r) auto
  with mh assms(2)[of x "h @ es"] show ?thesis by (simp add: bind_Inr)
qed

lemma returns_for_each:
  assumes "\<And>x h. x \<in> set xs \<Longrightarrow> returns (snd (body x h))"
  shows "returns (snd (for_each body xs h))"
  using assms
proof (induction xs arbitrary: h)
  case Nil
  then show ?case by (simp add: ret_def)
next
  case (Cons x xs)
  show ?case
    unfolding for_each.simps
    by (rule returns_bind) (simp_all add: Cons)
qed

lemma reaches_bind:
  assumes "\<And>h. returns (snd (m h))" and "\<And>x h. reaches_end (fst (f x h))"
  shows "reaches_end (fst (bind m f h))"
proof -
  obtain es r where mh: "m h = (es, r)" by (cases "m h")
  with assms(1)[of h] obtain x where "r = Inr x" by (cases r) auto
  with mh assms(2)[of x "h @ es"] show ?thesis by (simp add: bind_Inr)
qed

lemma reaches_end_record: "reaches_end (fst (logger_info (''End run: '' @ s) h))"
  by (simp add: logger_info_def reaches_end_def is_end_record_def)

lemma returns_logger_info: "returns (snd (logger_info msg h))"
  by (simp add: logger_info_def)

lemma returns_datetime_now: "returns (snd (datetime_now w h))"
  by (simp add: datetime_now_def)

lemma returns_requests_get: "\<forall>h url. returns (net w h url) \<Longrightarrow> returns (snd (requests_get w url h))"
  by (simp add: requests_get_def)

lemma returns_write_file: "\<forall>h p d. disk w h p d = None \<Longrightarrow> returns (snd (write_file w p d h))"
  by (simp add: write_file_def)

lemma returns_file_handler: "\<forall>h p. log_file w h p = None \<Longrightarrow> returns (snd (file_handler w p h))"
  by (simp add: file_handler_def)

lemma returns_lift: "returns r \<Longrightarrow> returns (snd (lift r h))"
  by (simp add: lift_def)

lemma returns_image_filename:
  "returns (maps_create_filename ns part' (Some (maps_num w i)) ''.jpg'')"
  using image_filename_is_built[of ns part' w i] by auto

subsection \<open>The URLs fetched follow the loops\<close>

lemma plan_ret: "follows_plan [] (ret x)"
  by (simp add: follows_plan_def ret_def)

lemma plan_lift: "follows_plan [] (lift r)"
  by (simp add: follows_plan_def lift_def)

lemma plan_requests_get: "follows_plan [Inr url] (requests_get w url)"
  by (simp add: follows_plan_def requests_get_def)

lemma plan_write_file: "follows_plan [] (write_file w p d)"
  by (simp add: follows_plan_def write_file_def split: option.splits)

lemma plan_file_handler: "follows_plan [] (file_handler w p)"
  by (simp add: follows_plan_def file_handler_def split: option.splits)

lemma plan_logger_info: "follows_plan [] (logger_info msg)"
  by (simp add: follows_plan_def logger_info_def)

lemma plan_datetime_now: "follows_plan [] (datetime_now w)"
  by (simp add: follows_plan_def datetime_now_def)

lemma plan_bind:
  assumes m: "follows_plan p1 m" and f: "\<And>x. follows_plan p2 (f x)"
  shows "follows_plan (p1 @ p2) (bind m f)"
  unfolding follows_plan_def
proof
  fix h
  obtain es r where mh: "m h = (es, r)" by (cases "m h")
  from m mh obtain rest where rest: "p1 = map Inr (gets es) @ rest"
    and fin: "returns r \<Longrightarrow> map Inr (gets es) = p1"
    unfolding follows_plan_def by (metis fst_conv snd_conv)
  show "(\<exists>rest. p1 @ p2 = map Inr (gets (fst (bind m f h))) @ rest) \<and>
        (if returns (snd (bind m f h)) then map Inr (gets (fst (bind m f h))) = p1 @ p2
         else True)"
  proof (cases r)
    case (Inl e)
    with mh rest show ?thesis by (simp add: bind_Inl)
  next
    case (Inr x)
    with fin have p1: "map Inr (gets es) = p1" by simp
    from f[of x] obtain rest2 where rest2: "p2 = map Inr (gets (fst (f x (h @ es)))) @ rest2"
      and fin2: "returns (snd (f x (h @ es))) \<Longrightarrow> map Inr (gets (fst (f x (h @ es)))) = p2"
      unfolding follows_plan_def by metis
    from mh Inr p1 rest2 fin2 show ?thesis
      by (auto simp: bind_Inr)
  qed
qed

lemma plan_bind_Nil:
  assumes "follows_plan [] m" and "\<And>x. follows_plan pl (f x)"
  shows "follows_plan pl (bind m f)"
  using plan_bind[OF assms] by simp

lemma plan_for_each:
  assumes "\<And>x. follows_plan (pl x) (body x)"
  shows "follows_plan (concat (map pl xs)) (for_each body xs)"
  by (induction xs) (auto intro: plan_ret plan_bind assms)

lemma plan_resolved:
  assumes "\<And>url. follows_plan [Inr url] (f url)"
  shows "follows_plan [r] (bind (lift r) f)"
proof (cases r)
  case (Inl e)
  then show ?thesis by (simp add: follows_plan_def bind_def lift_def)
next
  case (Inr url)
  have "bind (lift (Inr url)) f h = f url h" for h
    by (simp add: bind_def lift_def split: prod.splits)
  with assms[of url] Inr show ?thesis by (simp add: follows_plan_def)
qed

lemma plan_maps_item: "follows_plan [maps_resource_url host p i] (maps_item w host ns out p i)"
  unfolding maps_item_def
proof (rule plan_resolved)
  fix url
  have "follows_plan ([Inr url] @ [])
          (bind (requests_get w url) (\<lambda>response.
           bind (lift (maps_create_filename ns (part p)
                         (Some (maps_num (zfill_width (index p)) i)) ''.jpg'')) (\<lambda>filename.
           bind (write_file w (path_str (create_filepath w out filename))
                   (content response)) (\<lambda>_.
           logger_info (''Renamed file to ''
              @ path_name (create_filepath w out filename))))))"
    by (intro plan_bind plan_bind_Nil plan_requests_get plan_lift plan_write_file
          plan_logger_info)
  then show "follows_plan [Inr url]
          (bind (requests_get w url) (\<lambda>response.
           bind (lift (maps_create_filename ns (part p)
                         (Some (maps_num (zfill_width (index p)) i)) ''.jpg'')) (\<lambda>filename.
           bind (write_file w (path_str (create_filepath w out filename))
                   (content response)) (\<lambda>_.
           logger_info (''Renamed file to ''
              @ path_name (create_filepath w out filename))))))"
    by simp
qed

lemma plan_sanborn_item:
  "follows_plan [sanborn_resource_url host p i] (sanborn_item w host m out p i)"
  unfolding sanborn_item_def
proof (rule plan_resolved)
  fix url
  have "follows_plan ([Inr url] @ [])
          (bind (requests_get w url) (\<lambda>response.
           bind (write_file w
                   (out @ ''/'' @ sanborn_create_filename m (sanborn_num (pad_num p) i) (part p))
                   (content response)) (\<lambda>_.
           logger_info (''Renamed file to ''
              @ sanborn_create_filename m (sanborn_num (pad_num p) i) (part p)))))"
    by (intro plan_bind plan_bind_Nil plan_requests_get plan_write_file plan_logger_info)
  then show "follows_plan [Inr url]
          (bind (requests_get w url) (\<lambda>response.
           bind (write_file w
                   (out @ ''/'' @ sanborn_create_filename m (sanborn_num (pad_num p) i) (part p))
                   (content response)) (\<lambda>_.
           logger_info (''Renamed file to ''
              @ sanborn_create_filename m (sanborn_num (pad_num p) i) (part p)))))"
    by simp
qed

lemma concat_singletons: "concat (map (\<lambda>x. [f x]) xs) = map f xs"
  by (induction xs) simp_all

lemma plan_maps_group:
  "follows_plan (map (maps_resource_url host p) (py_range (start (index p)) (stop (index p))))
     (maps_group w host ns out p)"
  unfolding maps_group_def
  using plan_for_each[of "\<lambda>i. [maps_resource_url host p i]" "maps_item w host ns out p", OF plan_maps_item]
  by (simp add: concat_singletons)

lemma plan_sanborn_group:
  "follows_plan (map (sanborn_resource_url host p) (py_range (index_start p) (index_stop p)))
     (sanborn_group w host m out p)"
  unfolding sanborn_group_def
  using plan_for_each[of "\<lambda>i. [sanborn_resource_url host p i]" "sanborn_item w host m out p", OF plan_sanborn_item]
  by (simp add: concat_singletons)

lemma maps_plan_concat:
  "maps_plan host paths =
     concat (map (\<lambda>p. map (maps_resource_url host p) (py_range (start (index p)) (stop (index p)))) paths)"
  by (induction paths) (simp_all add: maps_plan_def maps_pairs_def map_concat comp_def)

lemma sanborn_plan_concat:
  "sanborn_plan host paths =
     concat (map (\<lambda>p. map (sanborn_resource_url host p) (py_range (index_start p) (index_stop p))) paths)"
  by (induction paths) (simp_all add: sanborn_plan_def sanborn_pairs_def map_concat comp_def)

lemma plan_maps_main: "follows_plan (maps_plan host paths) (maps_main w host ns paths out)"
  unfolding maps_main_def maps_plan_concat maps_configure_logger_def
  by (intro plan_bind_Nil plan_datetime_now plan_lift plan_file_handler plan_logger_info
        plan_bind[where ?p2.0 = "[]", simplified] plan_for_each plan_maps_group)

lemma plan_sanborn_main:
  "follows_plan (sanborn_plan host paths) (sanborn_main w host m paths out)"
  unfolding sanborn_main_def sanborn_plan_concat sanborn_configure_logger_def
  by (intro plan_bind_Nil plan_datetime_now plan_lift plan_file_handler plan_logger_info
        plan_bind[where ?p2.0 = "[]", simplified] plan_for_each plan_sanborn_group)

section \<open>The example runs, evaluated\<close>

lemma gap_run:
  "maps_main gap_world example_host example_segments [example_group] ''out'' []
     = ([OpenLog ''/home/user/out/LOC-Springfield-IL-1925.log'',
         Info ''Start run: T'',
         Get ''https://example.org/img/p0001.jpg'',
         Write ''/home/user/out/LOC-Springfield-IL-1925-0001.jpg'' ''Not Found'',
         Info ''Renamed file to LOC-Springfield-IL-1925-0001.jpg'',
         Get ''https://example.org/img/p0002.jpg''],
        Inl RequestException)"
  by code_simp

lemma calm_run:
  "maps_main calm_world example_host example_segments [example_group] ''out'' []
     = ([OpenLog ''/home/user/out/LOC-Springfield-IL-1925.log'',
         Info ''Start run: T'',
         Get ''https://example.org/img/p0001.jpg'',
         Write ''/home/user/out/LOC-Springfield-IL-1925-0001.jpg'' ''Not Found'',
         Info ''Renamed file to LOC-Springfield-IL-1925-0001.jpg'',
         Get ''https://example.org/img/p0002.jpg'',
         Write ''/home/user/out/LOC-Springfield-IL-1925-0002.jpg'' ''Not Found'',
         Info ''Renamed file to LOC-Springfield-IL-1925-0002.jpg'',
         Get ''https://example.org/img/p0003.jpg'',
         Write ''/home/user/out/LOC-Springfield-IL-1925-0003.jpg'' ''Not Found'',
         Info ''Renamed file to LOC-Springfield-IL-1925-0003.jpg'',
         Info ''End run: T''],
        Inr ())"
  by code_simp

lemma gap_sanborn_run:
  "sanborn_main gap_world example_host example_municipality [example_sanborn_group] ''out'' []
     = ([OpenLog ''out/Sanborn-LOC-Springfield-IL-1925.log'',
         Info ''Start run: T'',
         Get ''https://example.org/img/p0001.jpg'',
         Write ''out/Sanborn-LOC-Springfield-IL-1925-0001.jpg'' ''Not Found'',
         Info ''Renamed file to Sanborn-LOC-Springfield-IL-1925-0001.jpg'',
         Get ''https://example.org/img/p0002.jpg''],
        Inl RequestException)"
  by code_simp

lemma calm_sanborn_run:
  "sanborn_main calm_world example_host example_municipality [example_sanborn_group] ''out'' []
     = ([OpenLog ''out/Sanborn-LOC-Springfield-IL-1925.log'',
         Info ''Start run: T'',
         Get ''https://example.org/img/p0001.jpg'',
         Write ''out/Sanborn-LOC-Springfield-IL-1925-0001.jpg'' ''Not Found'',
         Info ''Renamed file to Sanborn-LOC-Springfield-IL-1925-0001.jpg'',
         Get ''https://example.org/img/p0002.jpg'',
         Write ''out/Sanborn-LOC-Springfield-IL-1925-0002.jpg'' ''Not Found'',
         Info ''Renamed file to Sanborn-LOC-Springfield-IL-1925-0002.jpg'',
         Get ''https://example.org/img/p0003.jpg'',
         Write ''out/Sanborn-LOC-Springfield-IL-1925-0003.jpg'' ''Not Found'',
         Info ''Renamed file to Sanborn-LOC-Springfield-IL-1925-0003.jpg'',
         Info ''End run: T''],
        Inr ())"
  by code_simp

lemma gap_net:
  "net gap_world h ''https://example.org/img/p0002.jpg'' = Inl RequestException"
  by (simp add: gap_world_def calm_world_def)


lemma calm_pairs:
  "map (\<lambda>(p, i). maps_resource_url example_host p i) (maps_pairs [example_group])
     = map Inr [''https://example.org/img/p0001.jpg'', ''https://example.org/img/p0002.jpg'',
        ''https://example.org/img/p0003.jpg'']"
  "map (\<lambda>(q, i). sanborn_resource_url example_host q i) (sanborn_pairs [example_sanborn_group])
     = map Inr [''https://example.org/img/p0001.jpg'', ''https://example.org/img/p0002.jpg'',
        ''https://example.org/img/p0003.jpg'']"
  by code_simp+

lemma calm_gets:
  "gets (fst (maps_main calm_world example_host example_segments [example_group] ''out'' []))
     = [''https://example.org/img/p0001.jpg'', ''https://example.org/img/p0002.jpg'',
        ''https://example.org/img/p0003.jpg'']"
  "gets (fst (sanborn_main calm_world example_host example_municipality
                [example_sanborn_group] ''out'' []))
     = [''https://example.org/img/p0001.jpg'', ''https://example.org/img/p0002.jpg'',
        ''https://example.org/img/p0003.jpg'']"
  by (simp_all add: calm_run calm_sanborn_run)

lemma gap_gets:
  "gets (fst (maps_main gap_world example_host example_segments [example_group] ''out'' []))
     = [''https://example.org/img/p0001.jpg'', ''https://example.org/img/p0002.jpg'']"
  "gets (fst (sanborn_main gap_world example_host example_municipality
                [example_sanborn_group] ''out'' []))
     = [''https://example.org/img/p0001.jpg'', ''https://example.org/img/p0002.jpg'']"
  by (simp_all add: gap_run gap_sanborn_run)

lemma example_indices:
  "map snd (maps_pairs [example_group]) = [1, 2, 3]"
  "map snd (sanborn_pairs [example_sanborn_group]) = [1, 2, 3]"
  by code_simp+

lemma example_image_segments:
  "maps_log_segments example_segments @ vol_segment (vol example_segments) @ part_segment None
     = [''LOC'', ''Springfield'', ''IL'', ''1925'']"
  by code_simp









lemma refused_path:
  "example_host @ default_path refused_group = ''https://example.org/img/_PLACEHOLDER.jpg''"
  "example_host @ default_path refused_sanborn_group
     = ''https://example.org/img/_PLACEHOLDER.jpg''"
  by code_simp+




lemma calm_never_raises:
  "\<forall>h url. returns (net calm_world h url)" "\<forall>h p d. disk calm_world h p d = None"
  "\<forall>h p. log_file calm_world h p = None"
  by (simp_all add: calm_world_def)

lemma example_literal:
  "\<forall>p\<in>set [example_group]. is_literal (prefix p)"
  "\<forall>q\<in>set [example_sanborn_group]. is_literal (prefix q)"
  by (simp_all add: is_literal_def example_group_def example_sanborn_group_def)

lemma example_log_filename: "returns (maps_create_filename example_segments None None ''.log'')"
  by code_simp

lemma example_stem: "CHR ''.'' \<notin> set (maps_stem example_segments None)"
  by code_simp

section \<open>The claims\<close>

subsection \<open>C1: a failed fetch\<close>

text \<open>
  Claim C1 says that when the fetch for some index raises a network-level error the
  Batch Runner logs the failure and goes on to the later indices and groups, and that
  the run still writes its end record. Neither \<open>main\<close> has a \<open>try\<close>: the exception leaves
  the loops. What holds instead, for both scripts and every job and world: when a GET of
  the run was answered with an exception, that GET is the last event of the run (no
  later fetch, write or log record), the run ends with that exception, and its trace
  holds no end record.
\<close>

theorem failed_fetch_aborts_run:
  assumes "run = maps_main w host ns paths out \<or> run = sanborn_main w host m spaths out"
    and "run [] = (before @ Get url # after, r)"
    and "net w before url = Inl e"
  shows "after = [] \<and> r = Inl e \<and> \<not> reaches_end (before @ Get url # after)"
proof -
  from assms(1) have "stops_at_failure w run"
    using stops_maps_main stops_sanborn_main by auto
  with assms(2,3) have *: "after = [] \<and> r = Inl e"
    unfolding stops_at_failure_def by (metis append_Nil)
  from assms(1) have "reaches_end (fst (run [])) \<Longrightarrow> returns (snd (run []))"
    using maps_main_end sanborn_main_end by auto
  with assms(2) * have "\<not> reaches_end (before @ Get url # after)"
    by auto
  with * show ?thesis by simp
qed

text \<open>
  The witness: the job of three indices in the world whose network fails at the second
  image, for both scripts.
\<close>

theorem failed_fetch_aborts_run_witness:
  "maps_main gap_world example_host example_segments [example_group] ''out'' []
     = ([OpenLog ''/home/user/out/LOC-Springfield-IL-1925.log'',
         Info ''Start run: T'',
         Get ''https://example.org/img/p0001.jpg'',
         Write ''/home/user/out/LOC-Springfield-IL-1925-0001.jpg'' ''Not Found'',
         Info ''Renamed file to LOC-Springfield-IL-1925-0001.jpg'']
        @ Get ''https://example.org/img/p0002.jpg'' # [], Inl RequestException)
   \<and> \<not> reaches_end
        ([OpenLog ''/home/user/out/LOC-Springfield-IL-1925.log'',
         Info ''Start run: T'',
         Get ''https://example.org/img/p0001.jpg'',
         Write ''/home/user/out/LOC-Springfield-IL-1925-0001.jpg'' ''Not Found'',
         Info ''Renamed file to LOC-Springfield-IL-1925-0001.jpg'']
        @ Get ''https://example.org/img/p0002.jpg'' # [])
   \<and> sanborn_main gap_world example_host example_municipality [example_sanborn_group] ''out'' []
     = ([OpenLog ''out/Sanborn-LOC-Springfield-IL-1925.log'',
         Info ''Start run: T'',
         Get ''https://example.org/img/p0001.jpg'',
         Write ''out/Sanborn-LOC-Springfield-IL-1925-0001.jpg'' ''Not Found'',
         Info ''Renamed file to Sanborn-LOC-Springfield-IL-1925-0001.jpg'']
        @ Get ''https://example.org/img/p0002.jpg'' # [], Inl RequestException)"
proof -
  let ?before = "[OpenLog ''/home/user/out/LOC-Springfield-IL-1925.log'',
         Info ''Start run: T'',
         Get ''https://example.org/img/p0001.jpg'',
         Write ''/home/user/out/LOC-Springfield-IL-1925-0001.jpg'' ''Not Found'',
         Info ''Renamed file to LOC-Springfield-IL-1925-0001.jpg'']"
  let ?run = "maps_main gap_world example_host example_segments [example_group] ''out''"
  have which: "?run = ?run \<or> ?run = sanborn_main gap_world example_host example_municipality [] ''out''"
    by simp
  have run: "?run [] = (?before @ Get ''https://example.org/img/p0002.jpg'' # [], Inl RequestException)"
    using gap_run by simp
  from failed_fetch_aborts_run[OF which run gap_net] run gap_sanborn_run
  show ?thesis by simp
qed

text \<open>
  The counterexample to C1 as stated: in that run the fetch of index 2 fails, index 3 is
  in the range, and yet its URL is never fetched and the end record is never written.
\<close>

theorem later_fetches_counterexample:
  "maps_resource_url example_host example_group 2 = Inr ''https://example.org/img/p0002.jpg''
   \<and> net gap_world
     [OpenLog ''/home/user/out/LOC-Springfield-IL-1925.log'',
      Info ''Start run: T'',
      Get ''https://example.org/img/p0001.jpg'',
      Write ''/home/user/out/LOC-Springfield-IL-1925-0001.jpg'' ''Not Found'',
      Info ''Renamed file to LOC-Springfield-IL-1925-0001.jpg'']
     ''https://example.org/img/p0002.jpg'' = Inl RequestException
   \<and> py_range (start (index example_group)) (stop (index example_group)) = [1, 2, 3]
   \<and> map Inr (gets (fst (maps_main gap_world example_host example_segments [example_group] ''out'' [])))
       = [maps_resource_url example_host example_group 1,
          maps_resource_url example_host example_group 2]
   \<and> maps_resource_url example_host example_group 3
       \<notin> set (map Inr
               (gets (fst (maps_main gap_world example_host example_segments [example_group] ''out'' []))))
   \<and> \<not> reaches_end (fst (maps_main gap_world example_host example_segments [example_group] ''out'' []))
   \<and> snd (maps_main gap_world example_host example_segments [example_group] ''out'' [])
       = Inl RequestException"
proof -
  have u: "maps_resource_url example_host example_group 1 = Inr ''https://example.org/img/p0001.jpg''"
    "maps_resource_url example_host example_group 2 = Inr ''https://example.org/img/p0002.jpg''"
    "maps_resource_url example_host example_group 3 = Inr ''https://example.org/img/p0003.jpg''"
    by code_simp+
  have r: "py_range (start (index example_group)) (stop (index example_group)) = [1, 2, 3]"
    by code_simp
  show ?thesis
    unfolding gap_run u r
    by (simp add: gap_net reaches_end_def is_end_record_def)
qed

subsection \<open>C2: the response body is written whatever the status code\<close>



subsection \<open>C3: the segments of the image filename\<close>

text \<open>
  Claim C3 says the image filename is the \<open>-\<close> join of the base name segments, the year,
  exactly one \<open>vol_\<close> segment, the part and the padded numeral, followed by the
  extension. \<open>create_filename\<close> of \<open>loc_maps.py\<close> appends the \<open>vol_\<close> segment at lines 79
  to 80 and again at lines 86 to 87, so an image filename holds it twice, while its own
  log filename and \<open>create_filename\<close> of \<open>loc_sanborn_maps.py\<close> hold it once. The code
  evaluated at a naming entry with volume 2 and index 7:
\<close>

theorem volume_segment_is_doubled:
  "maps_create_filename volume_segments None (Some (maps_num 0 7)) ''.jpg''
     = Inr \<lparr>root = '''', parts = [''LOC-Springfield-IL-1925-vol_2-vol_2-0007.jpg'']\<rparr>
   \<and> maps_create_filename volume_segments None None ''.log''
     = Inr \<lparr>root = '''', parts = [''LOC-Springfield-IL-1925-vol_2.log'']\<rparr>
   \<and> sanborn_create_filename volume_municipality (sanborn_num False 7) None
     = ''Sanborn-LOC-Springfield-IL-1925-vol_2-0007.jpg''"
  by code_simp

subsection \<open>C4: the numeral segment of the image filename\<close>

text \<open>
  Claim C4 says the numeral segment of the image filename is \<open>str(i)\<close> padded to width 4
  whatever \<open>zfill_width\<close> is. \<open>main\<close> of \<open>loc_maps.py\<close> passes \<open>create_filename\<close> the
  numeral it has already filled to \<open>zfill_width\<close> (line 237; the docstring calls \<open>num\<close>
  "typically zfilled"), and \<open>create_filename\<close> fills it to 4 only when it is shorter. What
  holds instead, for every naming entry, part, \<open>zfill_width\<close> and index: the last of the
  segments joined into the image filename is \<open>str(i).zfill(max(4, zfill_width))\<close>, which
  for a non-negative index is \<open>str(i)\<close> left-padded with zeros to that width.
\<close>

theorem numeral_segment_follows_zfill_width:
  "maps_image_segments ns part' (Some (maps_num w i))
     = maps_log_segments ns @ vol_segment (vol ns) @ part_segment part'
         @ [py_zfill (py_str i) (max 4 w)]
   \<and> (0 \<le> i \<longrightarrow>
        py_zfill (py_str i) (max 4 w)
          = replicate (nat (max 4 w - int (length (py_str i)))) CHR ''0'' @ py_str i)"
  by (simp add: maps_image_segments_def num_segment_def pad4_maps_num py_zfill_py_str_nonneg)

text \<open>
  The witness: index 7 with \<open>zfill_width = 6\<close>.
\<close>

theorem numeral_segment_follows_zfill_width_witness:
  "(0::int) \<le> 7
   \<and> maps_image_segments example_segments None (Some (maps_num 6 7))
       = [''LOC'', ''Springfield'', ''IL'', ''1925'', ''000007'']"
proof -
  have "replicate (nat (max 4 6 - int (length (py_str 7)))) CHR ''0'' @ py_str 7 = ''000007''"
    by (simp add: py_str_7 eval_nat_numeral)
  with numeral_segment_follows_zfill_width[of example_segments None 6 7]
  show ?thesis by (simp add: example_image_segments)
qed

text \<open>
  The counterexample to C4 as stated: with \<open>zfill_width = 6\<close> the filename of index 7
  ends in \<open>000007\<close>, not in the width 4 rendering \<open>0007\<close> that \<open>zfill_width = 0\<close> gives.
\<close>

theorem numeral_segment_counterexample:
  "maps_create_filename example_segments None (Some (maps_num 6 7)) ''.jpg''
     = Inr \<lparr>root = '''', parts = [''LOC-Springfield-IL-1925-000007.jpg'']\<rparr>
   \<and> maps_create_filename example_segments None (Some (maps_num 0 7)) ''.jpg''
     = Inr \<lparr>root = '''', parts = [''LOC-Springfield-IL-1925-0007.jpg'']\<rparr>
   \<and> last (maps_image_segments example_segments None (Some (maps_num 6 7))) = ''000007''
   \<and> pad4 (py_str 7) = ''0007''"
  by code_simp

subsection \<open>C5: the replacement token\<close>

text \<open>
  Claim C5: for every non-negative index, \<open>zfill_width\<close> and prefix, the replacement
  token is the prefix followed by a numeral at least \<open>zfill_width\<close> long, which is
  \<open>str(i)\<close> left-padded with zeros when \<open>str(i)\<close> is shorter than \<open>zfill_width\<close> and
  \<open>str(i)\<close> itself otherwise (never truncated).
\<close>

theorem replacement_token_numeral:
  assumes "0 \<le> i"
  shows "maps_repl p i = prefix p @ maps_num (zfill_width (index p)) i
       \<and> zfill_width (index p) \<le> int (length (maps_num (zfill_width (index p)) i))
       \<and> maps_num (zfill_width (index p)) i
           = (if int (length (py_str i)) < zfill_width (index p)
              then replicate (nat (zfill_width (index p) - int (length (py_str i)))) CHR ''0''
                     @ py_str i
              else py_str i)"
  using assms
  by (auto simp: maps_repl_def maps_num_def py_zfill_py_str_nonneg length_py_zfill py_zfill_short)

text \<open>
  The witness: index 7 in the example group, whose \<open>zfill_width\<close> is 4.
\<close>

theorem replacement_token_numeral_witness:
  "(0::int) \<le> 7 \<and> maps_repl example_group 7 = ''p0007''
   \<and> zfill_width (index example_group) \<le> int (length (maps_num (zfill_width (index example_group)) 7))"
proof -
  have z: "zfill_width (index example_group) = 4" "prefix example_group = ''p''"
    by (simp_all add: example_group_def)
  have h: "(0::int) \<le> 7" by simp
  from replacement_token_numeral[OF h, of example_group]
  show ?thesis by (simp add: z py_str_7 eval_nat_numeral)
qed

subsection \<open>C6: a pattern that matches nothing\<close>




subsection \<open>C7: a pattern that matches more than once\<close>




subsection \<open>C8: one fetch per group and index, in loop order\<close>

text \<open>
  Claim C8 says the Batch Runner attempts one fetch per (group, index) pair with the
  index in the half-open interval from \<open>index_start\<close> to \<open>index_stop\<close>, ordered by group
  and then by ascending index. \<open>maps_pairs\<close> and \<open>sanborn_pairs\<close> list those pairs in that
  order. A run that an exception cuts short attempts no fetch for the pairs that follow.
  What holds instead, for both scripts and every job and world: the URLs fetched are
  always an initial part of the resource URLs of the pairs, at most one fetch for one
  pair and in that order, and they are the URLs of all the pairs, one fetch each,
  whenever \<open>main\<close> returns. The indices of a group are exactly those from \<open>start\<close> up to
  but not including \<open>stop\<close>, in strictly ascending order.
\<close>

theorem fetches_follow_the_loops:
  "(\<exists>rest. map (\<lambda>(p, i). maps_resource_url host p i) (maps_pairs paths)
        = map Inr (gets (fst (maps_main w host ns paths out []))) @ rest)
   \<and> (returns (snd (maps_main w host ns paths out []))
        \<longrightarrow> map Inr (gets (fst (maps_main w host ns paths out [])))
            = map (\<lambda>(p, i). maps_resource_url host p i) (maps_pairs paths))
   \<and> (\<exists>rest. map (\<lambda>(q, i). sanborn_resource_url host q i) (sanborn_pairs spaths)
        = map Inr (gets (fst (sanborn_main w host m spaths out []))) @ rest)
   \<and> (returns (snd (sanborn_main w host m spaths out []))
        \<longrightarrow> map Inr (gets (fst (sanborn_main w host m spaths out [])))
            = map (\<lambda>(q, i). sanborn_resource_url host q i) (sanborn_pairs spaths))
   \<and> set (py_range a b) = {i. a \<le> i \<and> i < b}
   \<and> sorted_wrt (<) (py_range a b)"
proof -
  have 1: "follows_plan (map (\<lambda>(p, i). maps_resource_url host p i) (maps_pairs paths))
             (maps_main w host ns paths out)"
    using plan_maps_main[of host paths w ns out] by (simp add: maps_plan_def)
  have 2: "follows_plan (map (\<lambda>(q, i). sanborn_resource_url host q i) (sanborn_pairs spaths))
             (sanborn_main w host m spaths out)"
    using plan_sanborn_main[of host spaths w m out] by (simp add: sanborn_plan_def)
  from 1 2 show ?thesis
    unfolding follows_plan_def
    by (simp add: set_py_range sorted_wrt_py_range)
qed

text \<open>
  The witness: the runs of the job of three indices, in a world where nothing raises,
  return and fetch the three URLs in order.
\<close>

theorem fetches_follow_the_loops_witness:
  "returns (snd (maps_main calm_world example_host example_segments [example_group] ''out'' []))
   \<and> map Inr (gets (fst (maps_main calm_world example_host example_segments [example_group] ''out'' [])))
       = map (\<lambda>(p, i). maps_resource_url example_host p i) (maps_pairs [example_group])
   \<and> gets (fst (maps_main calm_world example_host example_segments [example_group] ''out'' []))
       = [''https://example.org/img/p0001.jpg'', ''https://example.org/img/p0002.jpg'',
          ''https://example.org/img/p0003.jpg'']
   \<and> returns (snd (sanborn_main calm_world example_host example_municipality
                     [example_sanborn_group] ''out'' []))
   \<and> map Inr (gets (fst (sanborn_main calm_world example_host example_municipality
                           [example_sanborn_group] ''out'' [])))
       = map (\<lambda>(q, i). sanborn_resource_url example_host q i) (sanborn_pairs [example_sanborn_group])
   \<and> gets (fst (sanborn_main calm_world example_host example_municipality
                   [example_sanborn_group] ''out'' []))
       = [''https://example.org/img/p0001.jpg'', ''https://example.org/img/p0002.jpg'',
          ''https://example.org/img/p0003.jpg'']
   \<and> set (py_range 1 4) = {i. 1 \<le> i \<and> i < 4}"
proof -
  have r: "returns (snd (maps_main calm_world example_host example_segments [example_group] ''out'' []))"
    "returns (snd (sanborn_main calm_world example_host example_municipality
                     [example_sanborn_group] ''out'' []))"
    by (simp_all add: calm_run calm_sanborn_run)
  from fetches_follow_the_loops[where host = example_host and paths = "[example_group]"
      and w = calm_world and ns = example_segments and out = "''out''"
      and spaths = "[example_sanborn_group]" and m = example_municipality and a = 1 and b = 4] r
  have "map Inr (gets (fst (maps_main calm_world example_host example_segments [example_group] ''out'' [])))
       = map (\<lambda>(p, i). maps_resource_url example_host p i) (maps_pairs [example_group])"
    and "map Inr (gets (fst (sanborn_main calm_world example_host example_municipality
                           [example_sanborn_group] ''out'' [])))
       = map (\<lambda>(q, i). sanborn_resource_url example_host q i) (sanborn_pairs [example_sanborn_group])"
    and "set (py_range 1 4) = {i. 1 \<le> i \<and> i < 4}"
    by blast+
  with r calm_gets show ?thesis
    by (simp only: simp_thms)
qed

text \<open>
  The counterexample to C8 as stated: the job of one group with the indices 1, 2 and 3
  has three (group, index) pairs, and in the world whose network fails at the second
  image either script attempts two fetches, not three: no fetch is attempted for the
  pair of index 3.
\<close>

theorem one_fetch_per_pair_counterexample:
  "map snd (maps_pairs [example_group]) = [1, 2, 3]
   \<and> maps_resource_url example_host example_group 3 = Inr ''https://example.org/img/p0003.jpg''
   \<and> gets (fst (maps_main gap_world example_host example_segments [example_group] ''out'' []))
       = [''https://example.org/img/p0001.jpg'', ''https://example.org/img/p0002.jpg'']
   \<and> length (gets (fst (maps_main gap_world example_host example_segments [example_group] ''out'' [])))
       \<noteq> length (maps_pairs [example_group])
   \<and> map snd (sanborn_pairs [example_sanborn_group]) = [1, 2, 3]
   \<and> sanborn_resource_url example_host example_sanborn_group 3
       = Inr ''https://example.org/img/p0003.jpg''
   \<and> gets (fst (sanborn_main gap_world example_host example_municipality
                   [example_sanborn_group] ''out'' []))
       = [''https://example.org/img/p0001.jpg'', ''https://example.org/img/p0002.jpg'']
   \<and> length (gets (fst (sanborn_main gap_world example_host example_municipality
                           [example_sanborn_group] ''out'' [])))
       \<noteq> length (sanborn_pairs [example_sanborn_group])"
proof -
  have u: "maps_resource_url example_host example_group 3 = Inr ''https://example.org/img/p0003.jpg''"
    "sanborn_resource_url example_host example_sanborn_group 3
       = Inr ''https://example.org/img/p0003.jpg''"
    by code_simp+
  have n: "length (maps_pairs [example_group]) = 3"
    "length (sanborn_pairs [example_sanborn_group]) = 3"
    using example_indices[THEN arg_cong, of length] by simp_all
  show ?thesis
    unfolding gap_gets n u example_indices by simp
qed

subsection \<open>C9: distinct indices, distinct filenames\<close>

text \<open>
  Claim C9 says the Filename Builder is deterministic and, within one group, injective
  in the index. \<open>create_filename\<close> of \<open>loc_maps.py\<close> attaches the extension with
  \<open>Path.with_suffix\<close>, which replaces everything from the last dot of the joined name on;
  when a name segment holds a dot that is where the numeral is, and every index gets the
  same filename. \<open>create_filename\<close> of \<open>loc_sanborn_maps.py\<close> appends the extension to the
  string and keeps the numeral. The code evaluated at a naming entry with the segment
  \<open>St.Louis\<close>, for the indices 1 and 2:
\<close>

theorem dotted_names_collide:
  "maps_create_filename dotted_segments None (Some (maps_num 4 1)) ''.jpg''
     = Inr \<lparr>root = '''', parts = [''LOC-St.jpg'']\<rparr>
   \<and> maps_create_filename dotted_segments None (Some (maps_num 4 2)) ''.jpg''
     = Inr \<lparr>root = '''', parts = [''LOC-St.jpg'']\<rparr>"
  by code_simp

subsection \<open>C10: the two URL pipelines agree\<close>

text \<open>
  Claim C10: under the schema mapping \<open>as_maps_path\<close>, the resource URL of
  \<open>loc_sanborn_maps.py\<close> with \<open>pad_num\<close> true is that of \<open>loc_maps.py\<close> with
  \<open>zfill_width = 4\<close>, and with \<open>pad_num\<close> false that of \<open>zfill_width = 0\<close>, for every host,
  prefix, path, pattern and index.
\<close>

theorem url_pipelines_agree:
  "sanborn_resource_url host p i
     = maps_resource_url host (as_maps_path p (if pad_num p then 4 else 0)) i"
  by (simp add: sanborn_resource_url_def maps_resource_url_def sanborn_repl_def maps_repl_def
        sanborn_num_def maps_num_def as_maps_path_def)

section \<open>Further properties of the two scripts\<close>

text \<open>
  When nothing raises (no prefix holds a backslash, so that every replacement token is
  accepted; the network answers every GET, every file write and the opening of the log
  file succeed, and for \<open>loc_maps.py\<close> the log filename is built), \<open>main\<close> of either
  script returns, fetches every (group, index) pair and writes the end record.
\<close>

theorem run_completes_when_nothing_raises:
  assumes net: "\<forall>h url. returns (net w h url)"
    and disk: "\<forall>h p d. disk w h p d = None"
    and log: "\<forall>h p. log_file w h p = None"
    and lit: "\<forall>p\<in>set paths. is_literal (prefix p)"
    and slit: "\<forall>q\<in>set spaths. is_literal (prefix q)"
  shows "(returns (maps_create_filename ns None None ''.log'')
           \<longrightarrow> returns (snd (maps_main w host ns paths out []))
             \<and> reaches_end (fst (maps_main w host ns paths out []))
             \<and> map Inr (gets (fst (maps_main w host ns paths out [])))
                 = map (\<lambda>(p, i). maps_resource_url host p i) (maps_pairs paths))
       \<and> returns (snd (sanborn_main w host m spaths out []))
       \<and> reaches_end (fst (sanborn_main w host m spaths out []))
       \<and> map Inr (gets (fst (sanborn_main w host m spaths out [])))
           = map (\<lambda>(q, i). sanborn_resource_url host q i) (sanborn_pairs spaths)"
proof -
  have s_item: "returns (snd (sanborn_item w host m out q i h))" if "q \<in> set spaths" for q i h
  proof -
    from that slit have "returns (sanborn_resource_url host q i)"
      by (simp add: sanborn_url_literal)
    then show ?thesis
      unfolding sanborn_item_def
      by (intro returns_bind returns_lift returns_requests_get returns_write_file
            returns_logger_info net disk)
  qed
  have s_group: "returns (snd (sanborn_group w host m out q h))" if "q \<in> set spaths" for q h
    unfolding sanborn_group_def by (intro returns_for_each s_item that)
  have s_loops: "returns (snd (for_each (sanborn_group w host m out) spaths h))" for h
    by (intro returns_for_each s_group)
  have s_conf: "returns (snd (sanborn_configure_logger w m out h))" for h
    unfolding sanborn_configure_logger_def by (intro returns_file_handler log)
  have s_ret: "returns (snd (sanborn_main w host m spaths out []))"
    unfolding sanborn_main_def
    by (intro returns_bind returns_datetime_now s_conf returns_logger_info s_loops)
  have s_end: "reaches_end (fst (sanborn_main w host m spaths out []))"
    unfolding sanborn_main_def
    by (intro reaches_bind returns_datetime_now s_conf returns_logger_info s_loops
          reaches_end_record)
  from s_ret plan_sanborn_main[of host spaths w m out]
  have s_gets: "map Inr (gets (fst (sanborn_main w host m spaths out [])))
           = map (\<lambda>(q, i). sanborn_resource_url host q i) (sanborn_pairs spaths)"
    unfolding follows_plan_def sanborn_plan_def by metis
  have m_item: "returns (snd (maps_item w host ns out p i h))" if "p \<in> set paths" for p i h
  proof -
    from that lit have "returns (maps_resource_url host p i)"
      by (simp add: maps_url_literal)
    then show ?thesis
      unfolding maps_item_def
      by (intro returns_bind returns_requests_get returns_write_file returns_logger_info
            returns_lift returns_image_filename net disk)
  qed
  have m_group: "returns (snd (maps_group w host ns out p h))" if "p \<in> set paths" for p h
    unfolding maps_group_def by (intro returns_for_each m_item that)
  have m_loops: "returns (snd (for_each (maps_group w host ns out) paths h))" for h
    by (intro returns_for_each m_group)
  have m_all: "returns (snd (maps_main w host ns paths out []))
             \<and> reaches_end (fst (maps_main w host ns paths out []))
             \<and> map Inr (gets (fst (maps_main w host ns paths out [])))
                 = map (\<lambda>(p, i). maps_resource_url host p i) (maps_pairs paths)"
    if lf: "returns (maps_create_filename ns None None ''.log'')"
  proof -
    have m_conf: "returns (snd (maps_configure_logger w out ns h))" for h
      unfolding maps_configure_logger_def
      by (intro returns_bind returns_lift lf returns_file_handler log)
    have m_ret: "returns (snd (maps_main w host ns paths out []))"
      unfolding maps_main_def
      by (intro returns_bind returns_datetime_now m_conf returns_logger_info m_loops)
    have m_end: "reaches_end (fst (maps_main w host ns paths out []))"
      unfolding maps_main_def
      by (intro reaches_bind returns_datetime_now m_conf returns_logger_info m_loops
            reaches_end_record)
    from m_ret plan_maps_main[of host paths w ns out]
    have "map Inr (gets (fst (maps_main w host ns paths out [])))
           = map (\<lambda>(p, i). maps_resource_url host p i) (maps_pairs paths)"
      unfolding follows_plan_def maps_plan_def by metis
    with m_ret m_end show ?thesis by simp
  qed
  from m_all s_ret s_end s_gets show ?thesis by blast
qed

theorem run_completes_when_nothing_raises_witness:
  "(\<forall>h url. returns (net calm_world h url))
   \<and> (\<forall>h p d. disk calm_world h p d = None)
   \<and> (\<forall>h p. log_file calm_world h p = None)
   \<and> (\<forall>p\<in>set [example_group]. is_literal (prefix p))
   \<and> (\<forall>q\<in>set [example_sanborn_group]. is_literal (prefix q))
   \<and> returns (maps_create_filename example_segments None None ''.log'')
   \<and> returns (snd (maps_main calm_world example_host example_segments [example_group] ''out'' []))
   \<and> reaches_end (fst (maps_main calm_world example_host example_segments [example_group] ''out'' []))
   \<and> returns (snd (sanborn_main calm_world example_host example_municipality
                     [example_sanborn_group] ''out'' []))
   \<and> reaches_end (fst (sanborn_main calm_world example_host example_municipality
                         [example_sanborn_group] ''out'' []))"
  using run_completes_when_nothing_raises[OF calm_never_raises example_literal,
      of example_segments example_host "''out''" example_municipality]
    calm_never_raises example_literal example_log_filename
  by blast

text \<open>
  \<open>create_filename\<close> of \<open>loc_sanborn_maps.py\<close> gives distinct non-negative indices of one
  group distinct filenames.
\<close>

theorem sanborn_filenames_distinct:
  assumes "0 \<le> i" "0 \<le> j"
    and "sanborn_create_filename m (sanborn_num pad i) part'
           = sanborn_create_filename m (sanborn_num pad j) part'"
  shows "i = j"
proof -
  from assms(3) have "pad4 (sanborn_num pad i) = pad4 (sanborn_num pad j)"
    by (simp add: sanborn_create_filename_def)
  then have "numeral_value (pad4 (sanborn_num pad i)) = numeral_value (pad4 (sanborn_num pad j))"
    by simp
  with assms(1,2) show ?thesis by (simp add: numeral_value_sanborn_num)
qed

theorem sanborn_filenames_distinct_witness:
  "(0::int) \<le> 3 \<and> (0::int) \<le> 12
   \<and> sanborn_create_filename example_municipality (sanborn_num True 3) None
       \<noteq> sanborn_create_filename example_municipality (sanborn_num True 12) None"
  using sanborn_filenames_distinct[of 3 12 example_municipality True None] by auto

text \<open>
  \<open>create_filename\<close> of \<open>loc_maps.py\<close> on a naming entry and part without a dot: the
  filename is built, its name is the last component of the joined segments before the
  numeral, then the numeral, then the extension; and distinct non-negative indices of one
  group get distinct filenames.
\<close>

lemma maps_image_name:
  assumes "CHR ''.'' \<notin> set (maps_stem ns part')"
  shows "\<exists>q. maps_create_filename ns part' (Some (maps_num w i)) ''.jpg'' = Inr q
           \<and> path_name q
               = last (split_sep (dropWhile (\<lambda>x. x = CHR ''/'') (maps_stem ns part')))
                   @ py_zfill (py_str i) (max 4 w) @ ''.jpg''"
proof -
  obtain q where q: "maps_create_filename ns part' (Some (maps_num w i)) ''.jpg'' = Inr q"
    using image_filename_is_built by blast
  then have "with_suffix (Path (maps_stem ns part' @ pad4 (maps_num w i))) ''.jpg'' = Inr q"
    by (simp add: maps_create_filename_def maps_joined)
  from image_name[OF pad4_maps_num_facts assms this] q show ?thesis
    by (simp add: pad4_maps_num)
qed

theorem maps_filenames_distinct:
  assumes "0 \<le> i" "0 \<le> j"
    and "CHR ''.'' \<notin> set (maps_stem ns part')"
    and "maps_create_filename ns part' (Some (maps_num w i)) ''.jpg''
           = maps_create_filename ns part' (Some (maps_num w j)) ''.jpg''"
  shows "i = j"
proof -
  from maps_image_name[OF assms(3), of w i] maps_image_name[OF assms(3), of w j] assms(4)
  have "py_zfill (py_str i) (max 4 w) = py_zfill (py_str j) (max 4 w)"
    by auto
  then have "numeral_value (py_zfill (py_str i) (max 4 w)) = numeral_value (py_zfill (py_str j) (max 4 w))"
    by simp
  with assms(1,2) show ?thesis by (simp add: numeral_value_zfill)
qed

theorem maps_filenames_distinct_witness:
  "(0::int) \<le> 3 \<and> (0::int) \<le> 12
   \<and> CHR ''.'' \<notin> set (maps_stem example_segments None)
   \<and> maps_create_filename example_segments None (Some (maps_num 4 3)) ''.jpg''
       \<noteq> maps_create_filename example_segments None (Some (maps_num 4 12)) ''.jpg''"
  using maps_filenames_distinct[of 3 12 example_segments None 4] example_stem by auto

text \<open>
  The two end-to-end scenarios of the specification: the indices 1 and 2 resolve to
  \<open>p0001.jpg\<close> and \<open>p0002.jpg\<close>, and the naming entry without a volume gives index 7
  the filename \<open>Sanborn-LOC-Springfield-IL-1925-0007.jpg\<close>.
\<close>

theorem specification_scenarios:
  "maps_resource_url example_host example_group 1 = Inr ''https://example.org/img/p0001.jpg''
   \<and> maps_resource_url example_host example_group 2 = Inr ''https://example.org/img/p0002.jpg''
   \<and> sanborn_resource_url example_host example_sanborn_group 1
       = Inr ''https://example.org/img/p0001.jpg''
   \<and> sanborn_resource_url example_host example_sanborn_group 2
       = Inr ''https://example.org/img/p0002.jpg''
   \<and> sanborn_create_filename example_municipality (sanborn_num False 7) None
       = ''Sanborn-LOC-Springfield-IL-1925-0007.jpg''
   \<and> maps_create_filename
        \<lparr>name = [''Sanborn-LOC'', ''Springfield'', ''IL''], year = Some 1925, vol = None\<rparr>
        None (Some (maps_num 0 7)) ''.jpg''
       = Inr \<lparr>root = '''', parts = [''Sanborn-LOC-Springfield-IL-1925-0007.jpg'']\<rparr>"
  by code_simp

end
